theory Spec2Isabelle
  imports Complex_Main
begin

section \<open>Semantic types\<close>

text \<open>
  Modelled from the spec: the module \<^verbatim>\<open>torch_frame.stype\<close> is missing. The spec (section 2)
  gives the closed set of semantic types; each declares which physical representation it
  uses. The spec does not list which type uses which representation, so the assignment
  \<open>pk\<close> is a parameter of every operation that dispatches on it. The source reads it
  through the properties \<^verbatim>\<open>stype.use_multi_nested_tensor\<close> and
  \<^verbatim>\<open>stype.use_dict_multi_nested_tensor\<close>.
\<close>

datatype stype =
    numerical | categorical | multicategorical | sequence_numerical
  | timestamp | text_embedded | embedding

datatype phys_kind = Dense | Ragged | NamedRaggedGroup

definition use_multi_nested_tensor :: "(stype \<Rightarrow> phys_kind) \<Rightarrow> stype \<Rightarrow> bool" where
  "use_multi_nested_tensor pk s = (pk s = Ragged)"

definition use_dict_multi_nested_tensor :: "(stype \<Rightarrow> phys_kind) \<Rightarrow> stype \<Rightarrow> bool" where
  "use_dict_multi_nested_tensor pk s = (pk s = NamedRaggedGroup)"

section \<open>Errors\<close>

text \<open>
  Every \<^verbatim>\<open>raise\<close> of \<^verbatim>\<open>utils/concat.py\<close> is a \<^verbatim>\<open>RuntimeError\<close> (or a
  \<^verbatim>\<open>ValueError\<close>) told apart by its message; the constructors below are the spec's error
  kinds, and each carries what the message of the source prints.
  \<^item> \<open>SchemaMismatch d\<close>: "col_names_dict's of given tensor frames do not match (expect all d)";
  \<^item> \<open>TargetMismatch b\<close>: "'y' attribute types ... do not match", expecting all tensors
    when \<open>b\<close> and all \<^verbatim>\<open>None\<close> otherwise;
  \<^item> \<open>DuplicateColumnError s ds\<close>: "s contains duplicated column names: ds".
  \<open>MissingSeparatorError\<close> is the failed \<^verbatim>\<open>assert sep is not None\<close> of
  \<^verbatim>\<open>data/stats.py\<close>, and \<open>ValueError\<close> the one \<^verbatim>\<open>numpy\<close> raises.
\<close>

datatype error =
    EmptyInputError
  | AlongError string
  | SchemaMismatch "(stype \<times> string list) list"
  | TargetMismatch bool
  | AmbiguousTargetError
  | DuplicateColumnError stype "string list"
  | RowCountMismatch
  | ColumnCountMismatch
  | KeyError string
  | TypeError
  | IndexError
  | InvalidFrame nat
  | ValueError
  | MissingSeparatorError

section \<open>Python dictionaries\<close>

text \<open>
  A \<^verbatim>\<open>dict\<close> keeps insertion order, so it is an association list whose keys are distinct.
  Equality of two dicts ignores the order of the keys: equal sizes, and every key of the
  left one is bound to an equal value in the right one.
\<close>

definition dict_eq :: "('k \<times> 'v) list \<Rightarrow> ('k \<times> 'v) list \<Rightarrow> bool" where
  "dict_eq d1 d2 =
     (length d1 = length d2 \<and> list_all (\<lambda>(k, v). map_of d2 k = Some v) d1)"

text \<open>\<^verbatim>\<open>d[k].extend(vs)\<close> on a \<^verbatim>\<open>defaultdict(list)\<close>: a new key goes last.\<close>

fun dict_extend :: "('k \<times> 'v list) list \<Rightarrow> 'k \<Rightarrow> 'v list \<Rightarrow> ('k \<times> 'v list) list" where
  "dict_extend [] k vs = [(k, vs)]"
| "dict_extend ((k', ws) # d) k vs =
     (if k' = k then (k', ws @ vs) # d else (k', ws) # dict_extend d k vs)"

text \<open>\<^verbatim>\<open>d[k].append(v)\<close> on a \<^verbatim>\<open>defaultdict(list)\<close>.\<close>

definition dict_append :: "('k \<times> 'v list) list \<Rightarrow> 'k \<Rightarrow> 'v \<Rightarrow> ('k \<times> 'v list) list" where
  "dict_append d k v = dict_extend d k [v]"

text \<open>A comprehension or loop whose body may raise stops at the first error.\<close>

fun try_map :: "('a \<Rightarrow> 'e + 'b) \<Rightarrow> 'a list \<Rightarrow> 'e + 'b list" where
  "try_map f [] = Inr []"
| "try_map f (x # xs) =
     (case f x of
        Inl e \<Rightarrow> Inl e
      | Inr v \<Rightarrow> (case try_map f xs of Inl e \<Rightarrow> Inl e | Inr vs \<Rightarrow> Inr (v # vs)))"

section \<open>Tensors\<close>

text \<open>
  Modelled from the spec: \<^verbatim>\<open>torch.Tensor\<close> and the class \<^verbatim>\<open>MultiNestedTensor\<close>
  (\<^verbatim>\<open>torch_frame/data/multi_nested_tensor.py\<close>) are missing. A storage has shape
  \<open>[num_rows, num_cols]\<close>; it is kept as its rows, each a list of \<open>num_cols\<close> cells. A cell of
  a dense tensor is a scalar, a cell of a ragged tensor is a variable-length sequence
  (spec, sections 3 and 4.2). The column count is a field, since a storage without rows
  still has one.
\<close>

record 'c Tensor =
  t_cols :: nat
  t_rows :: "'c list list"

type_synonym 'a MultiNestedTensor = "'a list Tensor"

definition t_wf :: "'c Tensor \<Rightarrow> bool" where
  "t_wf t = list_all (\<lambda>r. length r = t_cols t) (t_rows t)"

text \<open>
  Modelled from the spec: concatenation of storages (section 4.2 and 4.4). Along the rows
  (\<open>dm = 0\<close>) the rows are appended in input order and the column counts must agree; along
  the columns (\<open>dm = 1\<close>) all inputs must have the same row count and row \<open>i\<close> of the
  output is the concatenation of the inputs' rows \<open>i\<close>, in input order.
\<close>

definition tensor_cat :: "'c Tensor list \<Rightarrow> nat \<Rightarrow> error + 'c Tensor" where
  "tensor_cat ts dm =
     (case ts of
        [] \<Rightarrow> Inl IndexError
      | t0 # rest \<Rightarrow>
          if dm = 0 then
            (if list_all (\<lambda>t. t_cols t = t_cols t0) rest
             then Inr \<lparr>t_cols = t_cols t0, t_rows = concat (map t_rows ts)\<rparr>
             else Inl ColumnCountMismatch)
          else if dm = 1 then
            (if list_all (\<lambda>t. length (t_rows t) = length (t_rows t0)) rest
             then Inr \<lparr>t_cols = sum_list (map t_cols ts),
                       t_rows = map (\<lambda>i. concat (map (\<lambda>t. t_rows t ! i) ts))
                                  [0..<length (t_rows t0)]\<rparr>
             else Inl RowCountMismatch)
          else Inl IndexError)"

text \<open>\<^verbatim>\<open>torch.cat\<close> on dense tensors and \<^verbatim>\<open>MultiNestedTensor.cat\<close> on ragged ones.\<close>

definition torch_cat :: "'a Tensor list \<Rightarrow> nat \<Rightarrow> error + 'a Tensor" where
  "torch_cat = tensor_cat"

definition MultiNestedTensor_cat ::
  "'a MultiNestedTensor list \<Rightarrow> nat \<Rightarrow> error + 'a MultiNestedTensor" where
  "MultiNestedTensor_cat = tensor_cat"

text \<open>
  \<^verbatim>\<open>TensorData\<close> (\<^verbatim>\<open>torch_frame/typing.py\<close>, missing): a dense tensor, a ragged tensor, or
  a dict from member name to ragged tensor.
\<close>

datatype 'a TensorData =
    DenseT "'a Tensor"
  | RaggedT "'a MultiNestedTensor"
  | GroupT "(string \<times> 'a MultiNestedTensor) list"

definition td_kind :: "'a TensorData \<Rightarrow> phys_kind" where
  "td_kind td = (case td of DenseT _ \<Rightarrow> Dense | RaggedT _ \<Rightarrow> Ragged | GroupT _ \<Rightarrow> NamedRaggedGroup)"

definition td_row_counts :: "'a TensorData \<Rightarrow> nat list" where
  "td_row_counts td =
     (case td of
        DenseT t \<Rightarrow> [length (t_rows t)]
      | RaggedT t \<Rightarrow> [length (t_rows t)]
      | GroupT g \<Rightarrow> map (\<lambda>(n, t). length (t_rows t)) g)"

definition td_col_counts :: "'a TensorData \<Rightarrow> nat list" where
  "td_col_counts td =
     (case td of
        DenseT t \<Rightarrow> [t_cols t]
      | RaggedT t \<Rightarrow> [t_cols t]
      | GroupT g \<Rightarrow> map (\<lambda>(n, t). t_cols t) g)"

definition td_wf :: "'a TensorData \<Rightarrow> bool" where
  "td_wf td =
     (case td of
        DenseT t \<Rightarrow> t_wf t
      | RaggedT t \<Rightarrow> t_wf t
      | GroupT g \<Rightarrow> distinct (map fst g) \<and> list_all (\<lambda>(n, t). t_wf t) g)"

section \<open>The frame\<close>

text \<open>
  Modelled from the spec: the class \<^verbatim>\<open>TensorFrame\<close> (\<^verbatim>\<open>torch_frame/data/tensor_frame.py\<close>)
  is missing. Its fields are the ones \<^verbatim>\<open>utils/concat.py\<close> reads and passes to the
  constructor; the target \<^verbatim>\<open>y\<close> is a one-dimensional tensor or \<^verbatim>\<open>None\<close>.
\<close>

record 'a TensorFrame =
  feat_dict :: "(stype \<times> 'a TensorData) list"
  col_names_dict :: "(stype \<times> string list) list"
  tf_y :: "'a list option"

definition all_equal :: "nat list \<Rightarrow> bool" where
  "all_equal ns = (case ns of [] \<Rightarrow> True | n # rest \<Rightarrow> list_all (\<lambda>m. m = n) rest)"

text \<open>The row counts of every storage of a frame, then of its target.\<close>

definition row_counts :: "(stype \<times> 'a TensorData) list \<Rightarrow> 'a list option \<Rightarrow> nat list" where
  "row_counts fd yy =
     concat (map (\<lambda>(s, td). td_row_counts td) fd)
       @ (case yy of None \<Rightarrow> [] | Some v \<Rightarrow> [length v])"

text \<open>
  Modelled from the spec: \<open>num_rows\<close> is the single row count that the storages and the
  target share (section 3); a frame that stores nothing has no rows.
\<close>

definition num_rows :: "'a TensorFrame \<Rightarrow> nat" where
  "num_rows tf = (case row_counts (feat_dict tf) (tf_y tf) of [] \<Rightarrow> 0 | n # _ \<Rightarrow> n)"

text \<open>
  Modelled from the spec: the invariants of a frame (section 3), checked at construction.
  \<^enum> every semantic type in the storage has a column-name list as long as the storage's
    column count, and every column-name list has its storage;
  \<^enum> all storages and the target share the row count;
  \<^enum> column names are unique within a semantic type;
  \<^enum> a semantic type is present only with at least one column.
  Before these, each storage has the physical representation its semantic type declares
  and is rectangular.
\<close>

definition inv_repr :: "(stype \<Rightarrow> phys_kind) \<Rightarrow> (stype \<times> 'a TensorData) list \<Rightarrow> bool" where
  "inv_repr pk fd = list_all (\<lambda>(s, td). td_kind td = pk s \<and> td_wf td) fd"

definition inv_cols ::
  "(stype \<times> 'a TensorData) list \<Rightarrow> (stype \<times> string list) list \<Rightarrow> bool" where
  "inv_cols fd cn =
     (list_all (\<lambda>(s, td). case map_of cn s of
                   None \<Rightarrow> False
                 | Some names \<Rightarrow> td_col_counts td \<noteq> [] \<and>
                     list_all (\<lambda>c. c = length names) (td_col_counts td)) fd
      \<and> list_all (\<lambda>(s, names). map_of fd s \<noteq> None) cn)"

definition inv_rows :: "(stype \<times> 'a TensorData) list \<Rightarrow> 'a list option \<Rightarrow> bool" where
  "inv_rows fd yy = all_equal (row_counts fd yy)"

definition inv_unique :: "(stype \<times> string list) list \<Rightarrow> bool" where
  "inv_unique cn = list_all (\<lambda>(s, names). distinct names) cn"

definition inv_nonempty :: "(stype \<times> string list) list \<Rightarrow> bool" where
  "inv_nonempty cn = list_all (\<lambda>(s, names). names \<noteq> []) cn"

definition TensorFrame_init ::
  "(stype \<Rightarrow> phys_kind) \<Rightarrow> (stype \<times> 'a TensorData) list \<Rightarrow> (stype \<times> string list) list
     \<Rightarrow> 'a list option \<Rightarrow> error + 'a TensorFrame" where
  "TensorFrame_init pk fd cn yy =
     (if \<not> inv_repr pk fd then Inl (InvalidFrame 0)
      else if \<not> inv_cols fd cn then Inl ColumnCountMismatch
      else if \<not> inv_rows fd yy then Inl RowCountMismatch
      else if \<not> inv_unique cn then Inl (InvalidFrame 3)
      else if \<not> inv_nonempty cn then Inl (InvalidFrame 4)
      else Inr \<lparr>feat_dict = fd, col_names_dict = cn, tf_y = yy\<rparr>)"

text \<open>A frame as the constructor accepts it; its two dicts have distinct keys.\<close>

definition valid_frame :: "(stype \<Rightarrow> phys_kind) \<Rightarrow> 'a TensorFrame \<Rightarrow> bool" where
  "valid_frame pk tf =
     (distinct (map fst (feat_dict tf)) \<and> distinct (map fst (col_names_dict tf)) \<and>
      inv_repr pk (feat_dict tf) \<and> inv_cols (feat_dict tf) (col_names_dict tf) \<and>
      inv_rows (feat_dict tf) (tf_y tf) \<and> inv_unique (col_names_dict tf) \<and>
      inv_nonempty (col_names_dict tf))"

section \<open>Concatenation: \<^verbatim>\<open>torch_frame/utils/concat.py\<close>\<close>

text \<open>
  The first loop of \<^verbatim>\<open>_cat_helper\<close>: the storages of each semantic type, collected in
  input order.
\<close>

definition feat_list_dict ::
  "'a TensorFrame list \<Rightarrow> (stype \<times> 'a TensorData list) list" where
  "feat_list_dict tf_list =
     foldl (\<lambda>d tf. foldl (\<lambda>d (s, feat). dict_append d s feat) d (feat_dict tf)) [] tf_list"

text \<open>\<^verbatim>\<open>feat[name]\<close> for a storage that should be a dict of ragged tensors.\<close>

definition get_member :: "string \<Rightarrow> 'a TensorData \<Rightarrow> error + 'a MultiNestedTensor" where
  "get_member name feat =
     (case feat of
        GroupT g \<Rightarrow> (case map_of g name of None \<Rightarrow> Inl (KeyError name) | Some t \<Rightarrow> Inr t)
      | _ \<Rightarrow> Inl TypeError)"

definition as_dense :: "'a TensorData \<Rightarrow> error + 'a Tensor" where
  "as_dense feat = (case feat of DenseT t \<Rightarrow> Inr t | _ \<Rightarrow> Inl TypeError)"

definition as_ragged :: "'a TensorData \<Rightarrow> error + 'a MultiNestedTensor" where
  "as_ragged feat = (case feat of RaggedT t \<Rightarrow> Inr t | _ \<Rightarrow> Inl TypeError)"

text \<open>The body of the second loop of \<^verbatim>\<open>_cat_helper\<close>, for one semantic type.\<close>

definition cat_member ::
  "'a TensorData list \<Rightarrow> nat \<Rightarrow> string \<Rightarrow> error + (string \<times> 'a MultiNestedTensor)" where
  "cat_member feat_list dm name =
     (case try_map (get_member name) feat_list of
        Inl e \<Rightarrow> Inl e
      | Inr ts \<Rightarrow>
          (case MultiNestedTensor_cat ts dm of Inl e \<Rightarrow> Inl e | Inr t \<Rightarrow> Inr (name, t)))"

definition cat_feat ::
  "(stype \<Rightarrow> phys_kind) \<Rightarrow> nat \<Rightarrow> stype \<Rightarrow> 'a TensorData list \<Rightarrow> error + 'a TensorData" where
  "cat_feat pk dm s feat_list =
     (if use_multi_nested_tensor pk s then
        (case try_map as_ragged feat_list of
           Inl e \<Rightarrow> Inl e
         | Inr ts \<Rightarrow>
             (case MultiNestedTensor_cat ts dm of Inl e \<Rightarrow> Inl e | Inr t \<Rightarrow> Inr (RaggedT t)))
      else if use_dict_multi_nested_tensor pk s then
        (case feat_list of
           GroupT g # _ \<Rightarrow>
             (case try_map (cat_member feat_list dm) (map fst g) of
                Inl e \<Rightarrow> Inl e
              | Inr members \<Rightarrow> Inr (GroupT members))
         | [] \<Rightarrow> Inl IndexError
         | _ \<Rightarrow> Inl TypeError)
      else
        (case try_map as_dense feat_list of
           Inl e \<Rightarrow> Inl e
         | Inr ts \<Rightarrow> (case torch_cat ts dm of Inl e \<Rightarrow> Inl e | Inr t \<Rightarrow> Inr (DenseT t))))"

text \<open>\<^verbatim>\<open>_cat_helper\<close>.\<close>

definition cat_helper ::
  "(stype \<Rightarrow> phys_kind) \<Rightarrow> 'a TensorFrame list \<Rightarrow> nat \<Rightarrow> error + (stype \<times> 'a TensorData) list" where
  "cat_helper pk tf_list dm =
     try_map (\<lambda>(s, feat_list).
                case cat_feat pk dm s feat_list of Inl e \<Rightarrow> Inl e | Inr feat \<Rightarrow> Inr (s, feat))
       (feat_list_dict tf_list)"

text \<open>\<^verbatim>\<open>_cat_row\<close>. The empty list cannot reach it through \<open>cat\<close>; \<^verbatim>\<open>tf_list[0]\<close> would raise.\<close>

fun cat_row :: "(stype \<Rightarrow> phys_kind) \<Rightarrow> 'a TensorFrame list \<Rightarrow> error + 'a TensorFrame" where
  "cat_row pk [] = Inl IndexError"
| "cat_row pk (tf0 # rest) =
     (if list_ex (\<lambda>tf. \<not> dict_eq (col_names_dict tf) (col_names_dict tf0)) rest
      then Inl (SchemaMismatch (col_names_dict tf0))
      else if tf_y tf0 = None \<and> \<not> list_all (\<lambda>tf. tf_y tf = None) (tf0 # rest)
      then Inl (TargetMismatch False)
      else if tf_y tf0 \<noteq> None \<and> \<not> list_all (\<lambda>tf. tf_y tf \<noteq> None) (tf0 # rest)
      then Inl (TargetMismatch True)
      else
        (let yy = (if tf_y tf0 \<noteq> None
                   then Some (concat (map (\<lambda>tf. the (tf_y tf)) (tf0 # rest)))
                   else None)
         in case cat_helper pk (tf0 # rest) 0 of
              Inl e \<Rightarrow> Inl e
            | Inr fd \<Rightarrow> TensorFrame_init pk fd (col_names_dict tf0) yy))"

text \<open>
  \<^verbatim>\<open>Counter(lst)\<close>: the loop that bumps the count of each item; a new item goes last, so
  the keys are in first-encounter order.
\<close>

fun counter_add :: "('a \<times> nat) list \<Rightarrow> 'a \<Rightarrow> ('a \<times> nat) list" where
  "counter_add [] x = [(x, 1)]"
| "counter_add ((k, n) # d) x =
     (if k = x then (k, n + 1) # d else (k, n) # counter_add d x)"

definition Counter :: "'a list \<Rightarrow> ('a \<times> nat) list" where
  "Counter lst = foldl counter_add [] lst"

text \<open>\<^verbatim>\<open>_get_duplicates\<close>.\<close>

definition get_duplicates :: "'a list \<Rightarrow> 'a list" where
  "get_duplicates lst = map fst (filter (\<lambda>(item, count). count > 1) (Counter lst))"

text \<open>
  The aggregation loop of \<^verbatim>\<open>_cat_col\<close>: the column names of each semantic type, extended
  frame by frame.
\<close>

definition merged_col_names ::
  "'a TensorFrame list \<Rightarrow> (stype \<times> string list) list" where
  "merged_col_names tf_list =
     foldl (\<lambda>d tf. foldl (\<lambda>d (s, names). dict_extend d s names) d (col_names_dict tf))
       [] tf_list"

text \<open>
  \<^verbatim>\<open>_cat_col\<close>, first the choice of the target: the indices of the frames whose
  \<^verbatim>\<open>y\<close> is not \<^verbatim>\<open>None\<close>, and the three cases on their number.
\<close>

definition idx_with_non_nan_y :: "'a TensorFrame list \<Rightarrow> nat list" where
  "idx_with_non_nan_y tf_list = filter (\<lambda>i. tf_y (tf_list ! i) \<noteq> None) [0..<length tf_list]"

definition cat_col_y :: "'a TensorFrame list \<Rightarrow> error + 'a list option" where
  "cat_col_y tf_list =
     (if length (idx_with_non_nan_y tf_list) = 0 then Inr None
      else if length (idx_with_non_nan_y tf_list) = 1
      then Inr (tf_y (tf_list ! (idx_with_non_nan_y tf_list ! 0)))
      else Inl AmbiguousTargetError)"

definition cat_col :: "(stype \<Rightarrow> phys_kind) \<Rightarrow> 'a TensorFrame list \<Rightarrow> error + 'a TensorFrame" where
  "cat_col pk tf_list =
     (case cat_col_y tf_list of
        Inl e \<Rightarrow> Inl e
      | Inr yy \<Rightarrow>
          (case find (\<lambda>(s, col_names). length (get_duplicates col_names) > 0)
                  (merged_col_names tf_list) of
             Some (s, col_names) \<Rightarrow> Inl (DuplicateColumnError s (get_duplicates col_names))
           | None \<Rightarrow>
               (case cat_helper pk tf_list 1 of
                  Inl e \<Rightarrow> Inl e
                | Inr fd \<Rightarrow> TensorFrame_init pk fd (merged_col_names tf_list) yy)))"

text \<open>\<^verbatim>\<open>cat\<close>.\<close>

definition cat ::
  "(stype \<Rightarrow> phys_kind) \<Rightarrow> 'a TensorFrame list \<Rightarrow> string \<Rightarrow> error + 'a TensorFrame" where
  "cat pk tf_list along =
     (if length tf_list = 0 then Inl EmptyInputError
      else if along = ''row'' then cat_row pk tf_list
      else if along = ''col'' then cat_col pk tf_list
      else Inl (AlongError along))"

section \<open>Column statistics: \<^verbatim>\<open>torch_frame/data/stats.py\<close>\<close>

text \<open>
  A floating-point value is not-a-number, an infinity, or finite; the finite ones are
  taken as real numbers, so the rounding of the arithmetic is left out. A cell of a
  column (a \<^verbatim>\<open>pandas.Series\<close>) is \<^verbatim>\<open>None\<close>, a number, a string, or a sequence of
  numbers. \<^verbatim>\<open>isnull\<close> holds of \<^verbatim>\<open>None\<close> and of not-a-number.
\<close>

datatype fval = NaN | PosInf | NegInf | Finite real

datatype cell = NoneC | NumC fval | StrC string | SeqC "fval list"

fun isnull :: "cell \<Rightarrow> bool" where
  "isnull NoneC = True"
| "isnull (NumC NaN) = True"
| "isnull _ = False"

definition dropna :: "cell list \<Rightarrow> cell list" where
  "dropna ser = filter (\<lambda>c. \<not> isnull c) ser"

datatype StatType = MEAN | STD | QUANTILES | COUNT | MULTI_COUNT | YEAR_RANGE | EMB_DIM

datatype stat_value =
    FloatS fval
  | FloatListS "fval list"
  | CountS "cell list" "nat list"
  | IntS int
  | NoneS

text \<open>\<^verbatim>\<open>StatType.stats_for_stype\<close>.\<close>

fun stats_for_stype :: "stype \<Rightarrow> StatType list" where
  "stats_for_stype numerical = [MEAN, STD, QUANTILES]"
| "stats_for_stype categorical = [COUNT]"
| "stats_for_stype multicategorical = [MULTI_COUNT]"
| "stats_for_stype sequence_numerical = [MEAN, STD, QUANTILES]"
| "stats_for_stype timestamp = [YEAR_RANGE]"
| "stats_for_stype _ = []"

text \<open>\<^verbatim>\<open>_default_values\<close>.\<close>

fun default_values :: "StatType \<Rightarrow> stat_value" where
  "default_values MEAN = FloatS NaN"
| "default_values STD = FloatS NaN"
| "default_values QUANTILES = FloatListS [NaN, NaN, NaN, NaN, NaN]"
| "default_values COUNT = CountS [] []"
| "default_values MULTI_COUNT = CountS [] []"
| "default_values YEAR_RANGE = FloatListS [NaN, NaN]"
| "default_values EMB_DIM = IntS (- 1)"

subsection \<open>The library calls\<close>

text \<open>
  \<^verbatim>\<open>np.hstack(tup)\<close> turns each element of \<open>tup\<close> into an array of at least one
  dimension and concatenates them; with no element it raises \<^verbatim>\<open>ValueError\<close> ("need at
  least one array to concatenate"). \<^verbatim>\<open>np.hstack(np.hstack(ser.values))\<close> applies it
  first to the cells and then to the elements of the flat array that comes out.
\<close>

definition np_hstack :: "'a list list \<Rightarrow> error + 'a list" where
  "np_hstack arrs = (if arrs = [] then Inl ValueError else Inr (concat arrs))"

fun cell_array :: "cell \<Rightarrow> error + fval list" where
  "cell_array (NumC x) = Inr [x]"
| "cell_array (SeqC xs) = Inr xs"
| "cell_array _ = Inl TypeError"

definition flattened :: "cell list \<Rightarrow> error + fval list" where
  "flattened vals =
     (case try_map cell_array vals of
        Inl e \<Rightarrow> Inl e
      | Inr arrs \<Rightarrow>
          (case np_hstack arrs of
             Inl e \<Rightarrow> Inl e
           | Inr a \<Rightarrow> np_hstack (map (\<lambda>x. [x]) a)))"

fun isfinite :: "fval \<Rightarrow> bool" where
  "isfinite (Finite r) = True"
| "isfinite _ = False"

text \<open>\<^verbatim>\<open>flattened[finite_mask]\<close>.\<close>

fun finite_values :: "fval list \<Rightarrow> real list" where
  "finite_values [] = []"
| "finite_values (Finite r # xs) = r # finite_values xs"
| "finite_values (_ # xs) = finite_values xs"

text \<open>
  \<^verbatim>\<open>np.mean\<close>, \<^verbatim>\<open>np.std\<close> (population standard deviation, \<^verbatim>\<open>ddof = 0\<close>) and
  \<^verbatim>\<open>np.quantile\<close> (linear interpolation between the two nearest order statistics).
\<close>

definition np_mean :: "real list \<Rightarrow> real" where
  "np_mean xs = sum_list xs / real (length xs)"

definition np_std :: "real list \<Rightarrow> real" where
  "np_std xs = sqrt (sum_list (map (\<lambda>x. (x - np_mean xs)\<^sup>2) xs) / real (length xs))"

definition np_quantile :: "real list \<Rightarrow> real \<Rightarrow> real" where
  "np_quantile xs q =
     (let srt = sort xs;
          h = real (length xs - 1) * q;
          lo = nat \<lfloor>h\<rfloor>;
          hi = min (lo + 1) (length xs - 1)
      in srt ! lo + (h - real lo) * (srt ! hi - srt ! lo))"

text \<open>
  \<^verbatim>\<open>Series.value_counts(ascending=False)\<close>: the missing values are dropped; a cell that
  is a list cannot be hashed and raises \<^verbatim>\<open>TypeError\<close>; each distinct value is counted,
  in the order of its first occurrence, and the table is sorted by descending count.
  \<^verbatim>\<open>pandas\<close> sorts with \<^verbatim>\<open>sort_values\<close>, whose default \<^verbatim>\<open>kind='quicksort'\<close> is not
  stable, so the library does not fix the order among values of equal count. The sort
  is therefore the parameter \<open>sort_values\<close>, and \<open>sort_values_ok\<close> says what the library
  promises of it: the same entries, in descending order of their counts.
\<close>

fun is_seq :: "cell \<Rightarrow> bool" where
  "is_seq (SeqC xs) = True"
| "is_seq _ = False"

definition value_counts ::
  "((cell \<times> nat) list \<Rightarrow> (cell \<times> nat) list) \<Rightarrow> cell list \<Rightarrow> error + (cell \<times> nat) list" where
  "value_counts sort_values ser =
     (if list_ex is_seq (dropna ser) then Inl TypeError
      else Inr (sort_values (Counter (dropna ser))))"

definition sort_values_ok :: "((cell \<times> nat) list \<Rightarrow> (cell \<times> nat) list) \<Rightarrow> bool" where
  "sort_values_ok sort_values =
     (\<forall>l. (\<forall>x. count_list (sort_values l) x = count_list l x) \<and>
          sorted_wrt (\<lambda>a b. snd b \<le> snd a) (sort_values l))"

text \<open>
  \<^verbatim>\<open>Series.explode\<close>: each list-like cell becomes one row per element, an empty one a row
  holding not-a-number.
\<close>

definition explode :: "cell list list \<Rightarrow> cell list" where
  "explode rows = concat (map (\<lambda>ts. if ts = [] then [NumC NaN] else ts) rows)"

text \<open>
  Modelled from the spec: \<^verbatim>\<open>MultiCategoricalTensorMapper.split_by_sep\<close>
  (\<^verbatim>\<open>torch_frame/data/mapper.py\<close>) is missing. Each cell is split into zero or more
  category tokens at the occurrences of the separator (section 4.5); an empty cell has
  no token. \<open>split_str sep skip cur rest\<close> scans \<open>rest\<close> with the token \<open>cur\<close> read so far
  and \<open>skip\<close> characters of a separator still to pass over.
\<close>

fun split_str :: "string \<Rightarrow> nat \<Rightarrow> string \<Rightarrow> string \<Rightarrow> string list" where
  "split_str sep skip cur [] = [cur]"
| "split_str sep (Suc k) cur (c # cs) = split_str sep k cur cs"
| "split_str sep 0 cur (c # cs) =
     (if sep \<noteq> [] \<and> take (length sep) (c # cs) = sep
      then cur # split_str sep (length sep - 1) [] cs
      else split_str sep 0 (cur @ [c]) cs)"

definition split_by_sep :: "cell \<Rightarrow> string \<Rightarrow> error + cell list" where
  "split_by_sep row sep =
     (case row of
        StrC s \<Rightarrow> Inr (if s = [] then [] else map StrC (split_str sep 0 [] s))
      | _ \<Rightarrow> Inl TypeError)"

subsection \<open>\<^verbatim>\<open>StatType.compute\<close> and \<^verbatim>\<open>compute_col_stats\<close>\<close>

text \<open>
  \<open>to_year\<close> stands for \<^verbatim>\<open>pd.to_datetime(ser, format=time_format)\<close> followed by
  \<^verbatim>\<open>.dt.year\<close>, on one cell; \<open>sort_values\<close> is the sort inside \<^verbatim>\<open>value_counts\<close>.
\<close>

fun compute ::
  "((cell \<times> nat) list \<Rightarrow> (cell \<times> nat) list) \<Rightarrow> (string option \<Rightarrow> cell \<Rightarrow> error + int)
     \<Rightarrow> StatType \<Rightarrow> cell list \<Rightarrow> string option \<Rightarrow> string option \<Rightarrow> error + stat_value" where
  "compute sort_values to_year MEAN ser sep time_format =
     (case flattened ser of
        Inl e \<Rightarrow> Inl e
      | Inr fl \<Rightarrow>
          if \<not> list_ex isfinite fl then Inr (FloatS NaN)
          else Inr (FloatS (Finite (np_mean (finite_values fl)))))"
| "compute sort_values to_year STD ser sep time_format =
     (case flattened ser of
        Inl e \<Rightarrow> Inl e
      | Inr fl \<Rightarrow>
          if \<not> list_ex isfinite fl then Inr (FloatS NaN)
          else Inr (FloatS (Finite (np_std (finite_values fl)))))"
| "compute sort_values to_year QUANTILES ser sep time_format =
     (case flattened ser of
        Inl e \<Rightarrow> Inl e
      | Inr fl \<Rightarrow>
          if \<not> list_ex isfinite fl then Inr (FloatListS [NaN, NaN, NaN, NaN, NaN])
          else Inr (FloatListS (map (\<lambda>q. Finite (np_quantile (finite_values fl) q))
                                  [0, 1 / 4, 1 / 2, 3 / 4, 1])))"
| "compute sort_values to_year COUNT ser sep time_format =
     (case value_counts sort_values ser of
        Inl e \<Rightarrow> Inl e
      | Inr count \<Rightarrow> Inr (CountS (map fst count) (map snd count)))"
| "compute sort_values to_year MULTI_COUNT ser sep time_format =
     (case sep of
        None \<Rightarrow> Inl MissingSeparatorError
      | Some sp \<Rightarrow>
          (case try_map (\<lambda>row. split_by_sep row sp) ser of
             Inl e \<Rightarrow> Inl e
           | Inr rows \<Rightarrow>
               (case value_counts sort_values (dropna (explode rows)) of
                  Inl e \<Rightarrow> Inl e
                | Inr count \<Rightarrow> Inr (CountS (map fst count) (map snd count)))))"
| "compute sort_values to_year YEAR_RANGE ser sep time_format =
     (case try_map (to_year time_format) ser of
        Inl e \<Rightarrow> Inl e
      | Inr year_range \<Rightarrow>
          if year_range = [] then Inl ValueError
          else Inr (FloatListS [Finite (of_int (Min (set year_range))),
                                Finite (of_int (Max (set year_range)))]))"
| "compute sort_values to_year EMB_DIM ser sep time_format = Inr NoneS"

definition compute_col_stats ::
  "((cell \<times> nat) list \<Rightarrow> (cell \<times> nat) list) \<Rightarrow> (string option \<Rightarrow> cell \<Rightarrow> error + int)
     \<Rightarrow> cell list \<Rightarrow> stype \<Rightarrow> string option \<Rightarrow> string option
     \<Rightarrow> error + (StatType \<times> stat_value) list" where
  "compute_col_stats sort_values to_year ser0 stp sep time_format =
     (let ser = (if stp = numerical
                 then map (\<lambda>c. if c = NumC PosInf \<or> c = NumC NegInf then NumC NaN else c) ser0
                 else ser0)
      in if list_all isnull ser
         then Inr (map (\<lambda>stat_type. (stat_type, default_values stat_type)) (stats_for_stype stp))
         else try_map (\<lambda>stat_type.
                case compute sort_values to_year stat_type (dropna ser) sep time_format of
                  Inl e \<Rightarrow> Inl e
                | Inr v \<Rightarrow> Inr (stat_type, v))
                (stats_for_stype stp))"

section \<open>Auxiliary notions for the statements\<close>

text \<open>The value list bound to a key, empty when the key is absent.\<close>

definition dget :: "('k \<times> 'v list) list \<Rightarrow> 'k \<Rightarrow> 'v list" where
  "dget d k = (case map_of d k of None \<Rightarrow> [] | Some vs \<Rightarrow> vs)"

text \<open>The storages that the frames hold for a semantic type, in input order.\<close>

definition feats_of :: "stype \<Rightarrow> 'a TensorFrame list \<Rightarrow> 'a TensorData list" where
  "feats_of s tfs =
     concat (map (\<lambda>tf. case map_of (feat_dict tf) s of None \<Rightarrow> [] | Some f \<Rightarrow> [f]) tfs)"

text \<open>The distinct items of a list, in the order of their first occurrence.\<close>

definition first_seen :: "'a list \<Rightarrow> 'a list" where
  "first_seen xs = rev (remdups (rev xs))"

text \<open>The tokens of a cell, none when it is not a string.\<close>

definition tokens_of :: "string \<Rightarrow> cell \<Rightarrow> cell list" where
  "tokens_of sep c = (case split_by_sep c sep of Inl e \<Rightarrow> [] | Inr ts \<Rightarrow> ts)"

definition is_str :: "cell \<Rightarrow> bool" where
  "is_str c = (case c of StrC s \<Rightarrow> True | _ \<Rightarrow> False)"

text \<open>
  The errors that come from the storages and from the construction of a frame, as
  opposed to the checks that \<^verbatim>\<open>utils/concat.py\<close> makes itself.
\<close>

fun storage_error :: "error \<Rightarrow> bool" where
  "storage_error IndexError = True"
| "storage_error ColumnCountMismatch = True"
| "storage_error RowCountMismatch = True"
| "storage_error TypeError = True"
| "storage_error (KeyError n) = True"
| "storage_error (InvalidFrame n) = True"
| "storage_error _ = False"

section \<open>Example inputs\<close>

text \<open>An assignment of physical representations, and small frames over integers.\<close>

definition example_pk :: "stype \<Rightarrow> phys_kind" where
  "example_pk s =
     (if s = multicategorical \<or> s = sequence_numerical then Ragged
      else if s = embedding then NamedRaggedGroup
      else Dense)"

definition frame_a :: "int TensorFrame" where
  "frame_a = \<lparr>feat_dict = [(numerical, DenseT \<lparr>t_cols = 2, t_rows = [[1, 2]]\<rparr>)],
              col_names_dict = [(numerical, [''a'', ''b''])], tf_y = Some [7]\<rparr>"

definition frame_b :: "int TensorFrame" where
  "frame_b = \<lparr>feat_dict = [(numerical, DenseT \<lparr>t_cols = 2, t_rows = [[3, 4], [5, 6]]\<rparr>)],
              col_names_dict = [(numerical, [''a'', ''b''])], tf_y = Some [8, 9]\<rparr>"

definition frame_c :: "int TensorFrame" where
  "frame_c = \<lparr>feat_dict = [(categorical, DenseT \<lparr>t_cols = 1, t_rows = [[3]]\<rparr>)],
              col_names_dict = [(categorical, [''c''])], tf_y = None\<rparr>"

definition frame_d :: "int TensorFrame" where
  "frame_d = \<lparr>feat_dict = [(timestamp, DenseT \<lparr>t_cols = 1, t_rows = [[4]]\<rparr>)],
              col_names_dict = [(timestamp, [''d''])], tf_y = None\<rparr>"

definition frame_a_swapped :: "int TensorFrame" where
  "frame_a_swapped = \<lparr>feat_dict = [(numerical, DenseT \<lparr>t_cols = 2, t_rows = [[1, 2]]\<rparr>)],
              col_names_dict = [(numerical, [''b'', ''a''])], tf_y = Some [7]\<rparr>"

definition frame_a_no_y :: "int TensorFrame" where
  "frame_a_no_y = \<lparr>feat_dict = [(numerical, DenseT \<lparr>t_cols = 2, t_rows = [[1, 2]]\<rparr>)],
              col_names_dict = [(numerical, [''a'', ''b''])], tf_y = None\<rparr>"

definition frame_nc :: "int TensorFrame" where
  "frame_nc = \<lparr>feat_dict = [(numerical, DenseT \<lparr>t_cols = 1, t_rows = [[1]]\<rparr>),
                            (categorical, DenseT \<lparr>t_cols = 1, t_rows = [[2]]\<rparr>)],
               col_names_dict = [(numerical, [''a'']), (categorical, [''c''])], tf_y = None\<rparr>"

definition frame_nc_cat :: "int TensorFrame" where
  "frame_nc_cat = \<lparr>feat_dict = [(numerical, DenseT \<lparr>t_cols = 1, t_rows = [[1]]\<rparr>),
                            (categorical, DenseT \<lparr>t_cols = 1, t_rows = [[2]]\<rparr>)],
               col_names_dict = [(numerical, [''a'']), (categorical, [''d''])], tf_y = None\<rparr>"

definition frame_nc_num :: "int TensorFrame" where
  "frame_nc_num = \<lparr>feat_dict = [(numerical, DenseT \<lparr>t_cols = 1, t_rows = [[1]]\<rparr>),
                            (categorical, DenseT \<lparr>t_cols = 1, t_rows = [[2]]\<rparr>)],
               col_names_dict = [(numerical, [''z'']), (categorical, [''c''])], tf_y = None\<rparr>"

text \<open>
  Two frames with a dict of ragged tensors under \<open>embedding\<close>; the second has a member
  \<open>x\<close> that the first lacks.
\<close>

definition frame_g1 :: "int TensorFrame" where
  "frame_g1 = \<lparr>feat_dict = [(embedding, GroupT [(''m'', \<lparr>t_cols = 1, t_rows = [[[1]]]\<rparr>)])],
               col_names_dict = [(embedding, [''e''])], tf_y = None\<rparr>"

definition frame_g2 :: "int TensorFrame" where
  "frame_g2 = \<lparr>feat_dict = [(embedding, GroupT [(''m'', \<lparr>t_cols = 1, t_rows = [[[2, 3]]]\<rparr>),
                                               (''x'', \<lparr>t_cols = 1, t_rows = [[[9]]]\<rparr>)])],
               col_names_dict = [(embedding, [''e''])], tf_y = None\<rparr>"

text \<open>
  Two sorts that \<^verbatim>\<open>value_counts\<close> may use: both put the counts in descending order; the
  first keeps entries of equal count in their order, the second reverses them.
\<close>

definition stable_sort_values :: "(cell \<times> nat) list \<Rightarrow> (cell \<times> nat) list" where
  "stable_sort_values l = sort_key (\<lambda>p. - int (snd p)) l"


text \<open>The conversion of a timestamp cell, for columns that have none.\<close>

definition no_year :: "string option \<Rightarrow> cell \<Rightarrow> error + int" where
  "no_year time_format c = Inl TypeError"

section \<open>Basic facts\<close>

lemma idx_filter:
  "map ((!) xs) (filter (\<lambda>i. P (xs ! i)) [0..<length xs]) = filter P xs"
proof -
  have "filter P xs = filter P (map ((!) xs) [0..<length xs])"
    by (simp add: map_nth)
  also have "\<dots> = map ((!) xs) (filter (P \<circ> (!) xs) [0..<length xs])"
    by (simp only: filter_map)
  finally show ?thesis by (simp add: comp_def)
qed

lemma idx_with_non_nan_y_map:
  "map ((!) tf_list) (idx_with_non_nan_y tf_list) = filter (\<lambda>tf. tf_y tf \<noteq> None) tf_list"
  unfolding idx_with_non_nan_y_def by (rule idx_filter)

lemma idx_with_non_nan_y_length:
  "length (idx_with_non_nan_y tf_list) = length (filter (\<lambda>tf. tf_y tf \<noteq> None) tf_list)"
  by (metis idx_with_non_nan_y_map length_map)

lemma cat_col_y_none:
  "filter (\<lambda>tf. tf_y tf \<noteq> None) tf_list = [] \<Longrightarrow> cat_col_y tf_list = Inr None"
  unfolding cat_col_y_def idx_with_non_nan_y_length by auto

lemma cat_col_y_one:
  assumes "filter (\<lambda>tf. tf_y tf \<noteq> None) tf_list = [tf]"
  shows "cat_col_y tf_list = Inr (tf_y tf)"
proof -
  have len: "length (idx_with_non_nan_y tf_list) = 1"
    unfolding idx_with_non_nan_y_length using assms by auto
  then obtain i where i: "idx_with_non_nan_y tf_list = [i]"
    by (cases "idx_with_non_nan_y tf_list") auto
  have "map ((!) tf_list) [i] = [tf]"
    using idx_with_non_nan_y_map [of tf_list] unfolding i assms .
  then have "tf_list ! i = tf" by simp
  then show ?thesis by (simp add: cat_col_y_def i)
qed

lemma cat_col_y_many:
  "1 < length (filter (\<lambda>tf. tf_y tf \<noteq> None) tf_list) \<Longrightarrow>
     cat_col_y tf_list = Inl AmbiguousTargetError"
  unfolding cat_col_y_def idx_with_non_nan_y_length by auto

lemma cat_col_y_err: "cat_col_y tf_list = Inl e \<Longrightarrow> e = AmbiguousTargetError"
  by (auto simp: cat_col_y_def split: if_splits)

lemma TensorFrame_init_Inr:
  "TensorFrame_init pk fd cn yy = Inr r \<Longrightarrow>
     r = \<lparr>feat_dict = fd, col_names_dict = cn, tf_y = yy\<rparr> \<and> inv_repr pk fd \<and> inv_cols fd cn \<and>
     inv_rows fd yy \<and> inv_unique cn \<and> inv_nonempty cn"
  by (auto simp: TensorFrame_init_def split: if_splits)

lemma cat_col_Inr:
  assumes "cat_col pk tf_list = Inr r"
  obtains yy fd where "cat_col_y tf_list = Inr yy"
    and "find (\<lambda>(s, col_names). length (get_duplicates col_names) > 0)
           (merged_col_names tf_list) = None"
    and "cat_helper pk tf_list 1 = Inr fd"
    and "TensorFrame_init pk fd (merged_col_names tf_list) yy = Inr r"
  using assms unfolding cat_col_def
  by (auto split: sum.splits option.splits prod.splits)

lemma cat_col_Inr_y:
  assumes "cat_col pk tf_list = Inr r"
  shows "cat_col_y tf_list = Inr (tf_y r)"
proof -
  from assms obtain yy fd where a: "cat_col_y tf_list = Inr yy"
    and b: "TensorFrame_init pk fd (merged_col_names tf_list) yy = Inr r"
    by (rule cat_col_Inr)
  from TensorFrame_init_Inr [OF b] have "tf_y r = yy" by simp
  with a show ?thesis by simp
qed

lemma dict_eq_iff:
  assumes d1: "distinct (map fst d1)" and d2: "distinct (map fst d2)"
  shows "dict_eq d1 d2 \<longleftrightarrow> map_of d1 = map_of d2"
proof
  assume eq: "map_of d1 = map_of d2"
  have "length d1 = card (dom (map_of d1))"
    using d1 by (simp add: dom_map_of_conv_image_fst distinct_card flip: set_map)
  also have "\<dots> = card (dom (map_of d2))" by (simp add: eq)
  also have "\<dots> = length d2"
    using d2 by (simp add: dom_map_of_conv_image_fst distinct_card flip: set_map)
  finally have len: "length d1 = length d2" .
  have "map_of d2 k = Some v" if "(k, v) \<in> set d1" for k v
    using that d1 eq by (metis map_of_is_SomeI)
  then show "dict_eq d1 d2"
    using len by (auto simp: dict_eq_def list_all_iff)
next
  assume de: "dict_eq d1 d2"
  then have len: "length d1 = length d2"
    and sub: "\<And>k v. (k, v) \<in> set d1 \<Longrightarrow> map_of d2 k = Some v"
    by (auto simp: dict_eq_def list_all_iff)
  have le: "map_of d1 \<subseteq>\<^sub>m map_of d2"
    unfolding map_le_def
  proof
    fix a assume "a \<in> dom (map_of d1)"
    then obtain v where v: "map_of d1 a = Some v" by auto
    then have "(a, v) \<in> set d1" by (rule map_of_SomeD)
    then have "map_of d2 a = Some v" by (rule sub)
    with v show "map_of d1 a = map_of d2 a" by simp
  qed
  have c1: "card (dom (map_of d1)) = length d1"
    using d1 by (simp add: dom_map_of_conv_image_fst distinct_card flip: set_map)
  have c2: "card (dom (map_of d2)) = length d2"
    using d2 by (simp add: dom_map_of_conv_image_fst distinct_card flip: set_map)
  have "dom (map_of d1) \<subseteq> dom (map_of d2)" using le by (rule map_le_implies_dom_le)
  then have "dom (map_of d1) = dom (map_of d2)"
    using c1 c2 len by (simp add: card_subset_eq finite_dom_map_of)
  then show "map_of d1 = map_of d2"
    using le by (simp add: map_le_antisym map_le_def)
qed

lemma try_map_Inl: "try_map f xs = Inl e \<Longrightarrow> \<exists>x\<in>set xs. f x = Inl e"
  by (induction xs) (auto split: sum.splits)

lemma tensor_cat_err: "tensor_cat ts d = Inl e \<Longrightarrow> storage_error e"
  by (auto simp: tensor_cat_def split: list.splits if_splits)

lemma get_member_err: "get_member n f = Inl e \<Longrightarrow> storage_error e"
  by (auto simp: get_member_def split: TensorData.splits option.splits)

lemma as_dense_err: "as_dense f = Inl e \<Longrightarrow> storage_error e"
  by (auto simp: as_dense_def split: TensorData.splits)

lemma as_ragged_err: "as_ragged f = Inl e \<Longrightarrow> storage_error e"
  by (auto simp: as_ragged_def split: TensorData.splits)

lemma cat_member_err: "cat_member fl d n = Inl e \<Longrightarrow> storage_error e"
  unfolding cat_member_def MultiNestedTensor_cat_def
  by (auto split: sum.splits dest!: try_map_Inl dest: get_member_err tensor_cat_err)

lemma cat_feat_err: "cat_feat pk d s fl = Inl e \<Longrightarrow> storage_error e"
  unfolding cat_feat_def MultiNestedTensor_cat_def torch_cat_def
  by (auto split: sum.splits list.splits TensorData.splits if_splits dest!: try_map_Inl
      dest: as_dense_err as_ragged_err cat_member_err tensor_cat_err)

lemma cat_helper_err: "cat_helper pk tfs d = Inl e \<Longrightarrow> storage_error e"
  unfolding cat_helper_def
  by (auto split: sum.splits dest!: try_map_Inl dest: cat_feat_err)

lemma TensorFrame_init_err: "TensorFrame_init pk fd cn yy = Inl e \<Longrightarrow> storage_error e"
  by (auto simp: TensorFrame_init_def split: if_splits)

section \<open>Counting and aggregation\<close>

lemma first_seen_snoc:
  "first_seen (xs @ [x]) = (if x \<in> set xs then first_seen xs else first_seen xs @ [x])"
  by (simp add: first_seen_def)

lemma set_first_seen: "set (first_seen xs) = set xs"
  by (simp add: first_seen_def)

lemma distinct_first_seen: "distinct (first_seen xs)"
  by (simp add: first_seen_def)

lemma keys_counter_add:
  "map fst (counter_add d x) = (if x \<in> fst ` set d then map fst d else map fst d @ [x])"
  by (induction d x rule: counter_add.induct) auto

lemma map_of_counter_add:
  "map_of (counter_add d x) y =
     (if y = x then Some (case map_of d x of None \<Rightarrow> 1 | Some n \<Rightarrow> n + 1) else map_of d y)"
  by (induction d x rule: counter_add.induct) auto

lemma Counter_snoc: "Counter (xs @ [x]) = counter_add (Counter xs) x"
  by (simp add: Counter_def)

lemma Counter_keys: "map fst (Counter xs) = first_seen xs"
proof (induction xs rule: rev_induct)
  case Nil
  show ?case by (simp add: Counter_def first_seen_def)
next
  case (snoc x xs)
  have "fst ` set (Counter xs) = set (map fst (Counter xs))" by simp
  also have "\<dots> = set xs" by (simp only: snoc set_first_seen)
  finally have k: "fst ` set (Counter xs) = set xs" .
  show ?case
    by (simp add: Counter_snoc keys_counter_add first_seen_snoc k snoc)
qed

lemma Counter_map_of:
  "map_of (Counter xs) y = (if y \<in> set xs then Some (count_list xs y) else None)"
proof (induction xs rule: rev_induct)
  case Nil
  show ?case by (simp add: Counter_def)
next
  case (snoc x xs)
  then show ?case by (auto simp: Counter_snoc map_of_counter_add)
qed

lemma assoc_list_eq:
  assumes "distinct (map fst d)"
  shows "map (\<lambda>k. (k, the (map_of d k))) (map fst d) = d"
proof -
  have fixp: "(fst p, the (map_of d (fst p))) = p" if "p \<in> set d" for p
  proof -
    obtain k v where p: "p = (k, v)" by (cases p)
    have "map_of d k = Some v"
      using assms that unfolding p by (rule map_of_is_SomeI)
    then show ?thesis by (simp add: p)
  qed
  have "map (\<lambda>k. (k, the (map_of d k))) (map fst d)
          = map (\<lambda>p. (fst p, the (map_of d (fst p)))) d"
    by (simp add: comp_def)
  also have "\<dots> = d"
    by (rule map_idI) (rule fixp)
  finally show ?thesis .
qed

lemma Counter_eq: "Counter xs = map (\<lambda>x. (x, count_list xs x)) (first_seen xs)"
proof -
  have "distinct (map fst (Counter xs))" by (simp add: Counter_keys distinct_first_seen)
  from assoc_list_eq [OF this]
  have "Counter xs = map (\<lambda>k. (k, the (map_of (Counter xs) k))) (first_seen xs)"
    by (simp add: Counter_keys)
  also have "\<dots> = map (\<lambda>x. (x, count_list xs x)) (first_seen xs)"
    by (intro map_cong) (auto simp: Counter_map_of set_first_seen)
  finally show ?thesis .
qed

lemma get_duplicates_eq:
  "get_duplicates xs = filter (\<lambda>x. 1 < count_list xs x) (first_seen xs)"
  by (simp add: get_duplicates_def Counter_eq filter_map comp_def)

lemma distinct_count_list: "distinct xs \<longleftrightarrow> (\<forall>x. count_list xs x \<le> 1)"
proof (induction xs)
  case Nil
  show ?case by simp
next
  case (Cons a xs)
  show ?case
  proof
    assume d: "distinct (a # xs)"
    then have "a \<notin> set xs" and "\<forall>x. count_list xs x \<le> 1" using Cons by auto
    then show "\<forall>x. count_list (a # xs) x \<le> 1" by auto
  next
    assume h: "\<forall>x. count_list (a # xs) x \<le> 1"
    then have "count_list (a # xs) a \<le> 1" by blast
    then have "count_list xs a = 0" by simp
    then have na: "a \<notin> set xs" by (simp add: count_list_0_iff)
    have "count_list xs x \<le> 1" for x
      using h [rule_format, of x] by (auto split: if_splits)
    then show "distinct (a # xs)" using na Cons by simp
  qed
qed

lemma count_gt_in_set: "1 < count_list xs x \<Longrightarrow> x \<in> set xs"
  using count_notin [of x xs] by (cases "x \<in> set xs") auto

lemma get_duplicates_Nil_iff: "get_duplicates xs = [] \<longleftrightarrow> distinct xs"
proof -
  have "(\<forall>x\<in>set xs. \<not> 1 < count_list xs x) \<longleftrightarrow> (\<forall>x. count_list xs x \<le> 1)"
    using count_gt_in_set [of xs] by (meson not_less)
  then show ?thesis
    by (simp add: get_duplicates_eq distinct_count_list filter_empty_conv set_first_seen)
qed

lemma set_get_duplicates: "set (get_duplicates xs) = {x. 1 < count_list xs x}"
  using count_gt_in_set [of xs] by (auto simp: get_duplicates_eq set_first_seen)

lemma distinct_get_duplicates: "distinct (get_duplicates xs)"
  by (simp add: get_duplicates_eq distinct_first_seen)

lemma dget_Nil: "dget [] s = []"
  by (simp add: dget_def)

lemma dget_dict_extend:
  "dget (dict_extend d k vs) s = (if s = k then dget d k @ vs else dget d s)"
  by (induction d k vs rule: dict_extend.induct) (auto simp: dget_def)

lemma keys_dict_extend: "fst ` set (dict_extend d k vs) = insert k (fst ` set d)"
  by (induction d k vs rule: dict_extend.induct) auto

lemma distinct_dict_extend:
  "distinct (map fst d) \<Longrightarrow> distinct (map fst (dict_extend d k vs))"
  by (induction d k vs rule: dict_extend.induct) (auto simp: keys_dict_extend)

lemma dget_foldl_extend:
  "dget (foldl (\<lambda>d (s, x). dict_extend d s (g x)) d l) s
     = dget d s @ concat (map (\<lambda>(k, x). if k = s then g x else []) l)"
  by (induction l arbitrary: d) (auto simp: dget_dict_extend)

lemma keys_foldl_extend:
  "fst ` set (foldl (\<lambda>d (s, x). dict_extend d s (g x)) d l) = fst ` set d \<union> fst ` set l"
  by (induction l arbitrary: d) (simp_all add: keys_dict_extend case_prod_beta)

lemma distinct_foldl_extend:
  "distinct (map fst d) \<Longrightarrow>
     distinct (map fst (foldl (\<lambda>d (s, x). dict_extend d s (g x)) d l))"
  by (induction l arbitrary: d) (auto simp: distinct_dict_extend)

lemma dget_foldl2:
  "dget (foldl (\<lambda>d tf. foldl (\<lambda>d (s, x). dict_extend d s (g x)) d (p tf)) d tfs) s
     = dget d s
         @ concat (map (\<lambda>tf. concat (map (\<lambda>(k, x). if k = s then g x else []) (p tf))) tfs)"
  by (induction tfs arbitrary: d) (simp_all add: dget_foldl_extend)

lemma keys_foldl2:
  "fst ` set (foldl (\<lambda>d tf. foldl (\<lambda>d (s, x). dict_extend d s (g x)) d (p tf)) d tfs)
     = fst ` set d \<union> (\<Union>tf\<in>set tfs. fst ` set (p tf))"
  by (induction tfs arbitrary: d) (auto simp: keys_foldl_extend)

lemma distinct_foldl2:
  "distinct (map fst d) \<Longrightarrow>
     distinct (map fst (foldl (\<lambda>d tf. foldl (\<lambda>d (s, x). dict_extend d s (g x)) d (p tf)) d tfs))"
  by (induction tfs arbitrary: d) (simp_all add: distinct_foldl_extend)

lemma concat_select_notin:
  "s \<notin> fst ` set l \<Longrightarrow> concat (map (\<lambda>(k, x). if k = s then g x else []) l) = []"
  by (induction l) auto

lemma concat_select:
  "distinct (map fst l) \<Longrightarrow>
     concat (map (\<lambda>(k, x). if k = s then g x else []) l)
       = (case map_of l s of None \<Rightarrow> [] | Some x \<Rightarrow> g x)"
  by (induction l) (auto simp: concat_select_notin)

lemma dget_merged:
  assumes "list_all (\<lambda>tf. distinct (map fst (col_names_dict tf))) tfs"
  shows "dget (merged_col_names tfs) s = concat (map (\<lambda>tf. dget (col_names_dict tf) s) tfs)"
proof -
  have eq: "map (\<lambda>tf. concat (map (\<lambda>(k, x). if k = s then x else []) (col_names_dict tf))) tfs
          = map (\<lambda>tf. dget (col_names_dict tf) s) tfs"
    using assms concat_select [where g = "\<lambda>x. x" and s = s]
    by (intro map_cong) (auto simp: list_all_iff dget_def)
  have "dget (merged_col_names tfs) s
          = concat (map (\<lambda>tf. concat (map (\<lambda>(k, x). if k = s then x else [])
                                         (col_names_dict tf))) tfs)"
    unfolding merged_col_names_def
    using dget_foldl2 [where g = "\<lambda>x. x" and p = col_names_dict and d = "[]" and tfs = tfs and s = s]
    by (simp add: dget_Nil)
  also have "\<dots> = concat (map (\<lambda>tf. dget (col_names_dict tf) s) tfs)"
    by (rule arg_cong [OF eq])
  finally show ?thesis .
qed

lemma distinct_merged: "distinct (map fst (merged_col_names tfs))"
  unfolding merged_col_names_def
  using distinct_foldl2 [where g = "\<lambda>x. x" and p = col_names_dict and d = "[]" and tfs = tfs]
  by simp

lemma merged_entry:
  assumes "list_all (\<lambda>tf. distinct (map fst (col_names_dict tf))) tfs"
    and "(s, names) \<in> set (merged_col_names tfs)"
  shows "names = concat (map (\<lambda>tf. dget (col_names_dict tf) s) tfs)"
proof -
  have "map_of (merged_col_names tfs) s = Some names"
    using assms(2) distinct_merged by (rule_tac map_of_is_SomeI) auto
  then have "dget (merged_col_names tfs) s = names" by (simp add: dget_def)
  with dget_merged [OF assms(1)] show ?thesis by simp
qed

lemma cat_col_y_ok:
  assumes "length (filter (\<lambda>tf. tf_y tf \<noteq> None) tf_list) \<le> 1"
  shows "\<exists>yy. cat_col_y tf_list = Inr yy"
proof -
  from assms have "length (idx_with_non_nan_y tf_list) = 0
      \<or> length (idx_with_non_nan_y tf_list) = 1"
    unfolding idx_with_non_nan_y_length by linarith
  then show ?thesis by (auto simp: cat_col_y_def)
qed

lemma dropna_dropna: "dropna (dropna ser) = dropna ser"
  by (simp add: dropna_def)



lemma count_list_insort_key: "count_list (insort_key f x xs) y = count_list (x # xs) y"
  by (induction xs) auto

lemma count_list_sort_key: "count_list (sort_key f xs) y = count_list xs y"
  by (induction xs) (simp_all add: count_list_insort_key)


lemma descending_sort_key:
  "sorted_wrt (\<lambda>a b. snd b \<le> snd a) (sort_key (\<lambda>p. - int (snd p)) (l :: ('a \<times> nat) list))"
proof -
  have "sorted (map (\<lambda>p. - int (snd p)) (sort_key (\<lambda>p. - int (snd p)) l))"
    by (rule sorted_sort_key)
  then show ?thesis by (simp add: sorted_wrt_map)
qed

lemma sort_values_ok_stable: "sort_values_ok stable_sort_values"
  by (simp add: sort_values_ok_def stable_sort_values_def count_list_sort_key
      descending_sort_key)


lemma sort_ok_count: "sort_values_ok srt \<Longrightarrow> count_list (srt l) x = count_list l x"
  unfolding sort_values_ok_def by blast

lemma sort_ok_sorted: "sort_values_ok srt \<Longrightarrow> sorted_wrt (\<lambda>a b. snd b \<le> snd a) (srt l)"
  by (simp add: sort_values_ok_def)

lemma sort_ok_set:
  assumes "sort_values_ok srt"
  shows "set (srt l) = set l"
proof (rule set_eqI)
  fix x
  have "count_list (srt l) x = count_list l x" using assms by (rule sort_ok_count)
  then show "x \<in> set (srt l) \<longleftrightarrow> x \<in> set l"
    using count_list_0_iff [of "srt l" x] count_list_0_iff [of l x] by metis
qed

lemma sort_ok_distinct: "sort_values_ok srt \<Longrightarrow> distinct l \<Longrightarrow> distinct (srt l)"
  by (simp add: distinct_count_list sort_ok_count)

lemma sort_ok_Nil: "sort_values_ok srt \<Longrightarrow> srt [] = []"
  using sort_ok_set [of srt "[]"] by simp

text \<open>When no two counts are equal, every admissible sort gives the same table.\<close>

lemma sort_ok_unique:
  assumes ok: "sort_values_ok srt" and d: "distinct (map snd l)"
  shows "srt l = sort_key (\<lambda>p. - int (snd p)) l"
proof -
  let ?k = "\<lambda>p :: cell \<times> nat. - int (snd p)"
  let ?m = "srt l" and ?c = "sort_key ?k l"
  from d have dl: "distinct l" and inj_snd: "inj_on snd (set l)"
    by (simp_all add: distinct_map)
  have inj: "inj_on ?k (set l)"
    using inj_snd by (auto simp: inj_on_def)
  have sm: "set ?m = set l" using ok by (rule sort_ok_set)
  have sc: "set ?c = set l" by simp
  have dm: "distinct ?m" using ok dl by (rule sort_ok_distinct)
  have dc: "distinct ?c" using dl by simp
  have "sorted_wrt (\<lambda>a b. snd b \<le> snd a) ?m" using ok by (rule sort_ok_sorted)
  then have s1: "sorted (map ?k ?m)" by (simp add: sorted_wrt_map)
  have s2: "sorted (map ?k ?c)" by (rule sorted_sort_key)
  have d1: "distinct (map ?k ?m)" using dm inj by (simp add: distinct_map sm)
  have d2: "distinct (map ?k ?c)" using dc inj by (simp add: distinct_map)
  have e: "set (map ?k ?m) = set (map ?k ?c)" by (simp add: sm)
  have "map ?k ?m = map ?k ?c"
    using s1 d1 s2 d2 e by (rule sorted_distinct_set_unique)
  moreover have "inj_on ?k (set ?m \<union> set ?c)" using inj by (simp add: sm)
  ultimately show ?thesis by (simp add: inj_on_map_eq_map)
qed



lemma try_map_Inr_all: "(\<And>x. x \<in> set xs \<Longrightarrow> f x = Inr (g x)) \<Longrightarrow> try_map f xs = Inr (map g xs)"
  by (induction xs) auto

lemma value_counts_Inr:
  "\<not> list_ex is_seq (dropna ser) \<Longrightarrow> value_counts srt ser = Inr (srt (Counter (dropna ser)))"
  by (simp add: value_counts_def)

lemma not_seq_dropna: "\<not> list_ex is_seq ser \<Longrightarrow> \<not> list_ex is_seq (dropna ser)"
  by (auto simp: list_ex_iff dropna_def)

lemma compute_col_stats_categorical:
  assumes ok: "sort_values_ok srt" and ns: "\<not> list_ex is_seq ser"
  shows "compute_col_stats srt to_year ser categorical sep time_format
     = Inr [(COUNT, CountS (map fst (srt (Counter (dropna ser))))
                           (map snd (srt (Counter (dropna ser)))))]"
proof (cases "list_all isnull ser")
  case True
  then have "dropna ser = []" by (auto simp: dropna_def list_all_iff filter_empty_conv)
  then have "srt (Counter (dropna ser)) = []"
    using sort_ok_Nil [OF ok] by (simp add: Counter_def)
  with True show ?thesis by (simp add: compute_col_stats_def)
next
  case False
  have "value_counts srt (dropna ser) = Inr (srt (Counter (dropna ser)))"
    using value_counts_Inr [of "dropna ser" srt] not_seq_dropna [OF not_seq_dropna [OF ns]]
    by (simp add: dropna_dropna)
  with False show ?thesis by (simp add: compute_col_stats_def)
qed

section \<open>The storages collected by \<^verbatim>\<open>_cat_helper\<close>\<close>

lemma feat_list_dict_alt:
  "feat_list_dict tfs
     = foldl (\<lambda>d tf. foldl (\<lambda>d (s, x). dict_extend d s [x]) d (feat_dict tf)) [] tfs"
  by (simp add: feat_list_dict_def dict_append_def)

lemma dget_feat_list_dict:
  assumes "list_all (\<lambda>tf. distinct (map fst (feat_dict tf))) tfs"
  shows "dget (feat_list_dict tfs) s = feats_of s tfs"
proof -
  have eq: "map (\<lambda>tf. concat (map (\<lambda>(k, x). if k = s then [x] else []) (feat_dict tf))) tfs
          = map (\<lambda>tf. case map_of (feat_dict tf) s of None \<Rightarrow> [] | Some f \<Rightarrow> [f]) tfs"
    using assms concat_select [where g = "\<lambda>x. [x]" and s = s]
    by (intro map_cong) (auto simp: list_all_iff)
  have "dget (feat_list_dict tfs) s
          = concat (map (\<lambda>tf. concat (map (\<lambda>(k, x). if k = s then [x] else [])
                                         (feat_dict tf))) tfs)"
    unfolding feat_list_dict_alt
    using dget_foldl2 [where g = "\<lambda>x. [x]" and p = feat_dict and d = "[]" and tfs = tfs and s = s]
    by (simp add: dget_Nil)
  also have "\<dots> = feats_of s tfs"
    unfolding feats_of_def by (rule arg_cong [OF eq])
  finally show ?thesis .
qed

lemma distinct_feat_list_dict: "distinct (map fst (feat_list_dict tfs))"
  unfolding feat_list_dict_alt
  using distinct_foldl2 [where g = "\<lambda>x. [x]" and p = feat_dict and d = "[]" and tfs = tfs]
  by simp

lemma keys_feat_list_dict:
  "fst ` set (feat_list_dict tfs) = (\<Union>tf\<in>set tfs. fst ` set (feat_dict tf))"
  unfolding feat_list_dict_alt
  using keys_foldl2 [where g = "\<lambda>x. [x]" and p = feat_dict and d = "[]" and tfs = tfs]
  by simp

lemma in_feats_of:
  "tf \<in> set tfs \<Longrightarrow> map_of (feat_dict tf) s = Some f \<Longrightarrow> f \<in> set (feats_of s tfs)"
  by (force simp: feats_of_def)

lemma feats_of_elem:
  "f \<in> set (feats_of s tfs) \<Longrightarrow> \<exists>tf\<in>set tfs. map_of (feat_dict tf) s = Some f"
  by (auto simp: feats_of_def split: option.splits)

lemma feat_list_dict_entry:
  assumes dk: "list_all (\<lambda>tf. distinct (map fst (feat_dict tf))) tfs"
    and mem: "(s, fl) \<in> set (feat_list_dict tfs)"
  shows "fl = feats_of s tfs" and "fl \<noteq> []"
proof -
  have "map_of (feat_list_dict tfs) s = Some fl"
    using mem distinct_feat_list_dict by (rule_tac map_of_is_SomeI) auto
  then show a: "fl = feats_of s tfs"
    using dget_feat_list_dict [OF dk, of s] by (simp add: dget_def)
  have "s \<in> fst ` set (feat_list_dict tfs)" using mem by force
  then obtain tf where tf: "tf \<in> set tfs" "s \<in> fst ` set (feat_dict tf)"
    unfolding keys_feat_list_dict by auto
  then obtain f where "map_of (feat_dict tf) s = Some f"
    by (cases "map_of (feat_dict tf) s") (auto simp: map_of_eq_None_iff)
  with tf(1) have "f \<in> set (feats_of s tfs)" by (rule in_feats_of)
  then show "fl \<noteq> []" using a by auto
qed

lemma feat_list_dict_mem:
  assumes dk: "list_all (\<lambda>tf. distinct (map fst (feat_dict tf))) tfs"
    and ne: "feats_of s tfs \<noteq> []"
  shows "(s, feats_of s tfs) \<in> set (feat_list_dict tfs)"
proof -
  have "dget (feat_list_dict tfs) s = feats_of s tfs" using dk by (rule dget_feat_list_dict)
  with ne have "map_of (feat_list_dict tfs) s = Some (feats_of s tfs)"
    by (auto simp: dget_def split: option.splits)
  then show ?thesis by (rule map_of_SomeD)
qed

lemma try_map_Inr_in: "try_map f xs = Inr ys \<Longrightarrow> x \<in> set xs \<Longrightarrow> \<exists>y\<in>set ys. f x = Inr y"
  by (induction xs arbitrary: ys) (auto split: sum.splits)

lemma try_map_Inr_out: "try_map f xs = Inr ys \<Longrightarrow> y \<in> set ys \<Longrightarrow> \<exists>x\<in>set xs. f x = Inr y"
  by (induction xs arbitrary: ys) (auto split: sum.splits)


lemma try_map_Inr_map:
  "try_map f xs = Inr ys \<Longrightarrow> (\<And>x y. f x = Inr y \<Longrightarrow> k y = k' x) \<Longrightarrow> map k ys = map k' xs"
  by (induction xs arbitrary: ys) (auto split: sum.splits)

lemma try_map_Inr_list_all2:
  "try_map f xs = Inr ys \<Longrightarrow> list_all2 (\<lambda>x y. f x = Inr y) xs ys"
  by (induction xs arbitrary: ys) (auto split: sum.splits)

lemma cat_helper_keys:
  assumes "cat_helper pk tfs dm = Inr fd"
  shows "map fst fd = map fst (feat_list_dict tfs)"
  by (rule try_map_Inr_map [OF assms [unfolded cat_helper_def]]) (auto split: sum.splits)

lemma cat_helper_out:
  assumes "cat_helper pk tfs dm = Inr fd" and "(s, td) \<in> set fd"
  shows "\<exists>fl. (s, fl) \<in> set (feat_list_dict tfs) \<and> cat_feat pk dm s fl = Inr td"
proof -
  from try_map_Inr_out [OF assms(1) [unfolded cat_helper_def] assms(2)]
  show ?thesis by (auto split: sum.splits)
qed

lemma cat_helper_in:
  assumes "cat_helper pk tfs dm = Inr fd" and "(s, fl) \<in> set (feat_list_dict tfs)"
  shows "\<exists>td. (s, td) \<in> set fd \<and> cat_feat pk dm s fl = Inr td"
proof -
  from try_map_Inr_in [OF assms(1) [unfolded cat_helper_def] assms(2)]
  show ?thesis by (auto split: sum.splits)
qed

lemma cat_row_Inr:
  assumes "cat_row pk (tf0 # rest) = Inr r"
  obtains yy fd where
    "\<not> list_ex (\<lambda>tf. \<not> dict_eq (col_names_dict tf) (col_names_dict tf0)) rest"
    and "cat_helper pk (tf0 # rest) 0 = Inr fd"
    and "TensorFrame_init pk fd (col_names_dict tf0) yy = Inr r"
    and "yy = (if tf_y tf0 \<noteq> None
               then Some (concat (map (\<lambda>tf. the (tf_y tf)) (tf0 # rest))) else None)"
    and "list_all (\<lambda>tf. tf_y tf \<noteq> None) (tf0 # rest) \<or> list_all (\<lambda>tf. tf_y tf = None) (tf0 # rest)"
  using assms by (auto simp: Let_def split: if_splits sum.splits)

lemma cat_Inr_helper:
  assumes "cat pk tfs along = Inr r"
  shows "\<exists>dm. cat_helper pk tfs dm = Inr (feat_dict r)"
proof -
  from assms have ne: "tfs \<noteq> []" by (auto simp: cat_def split: if_splits)
  then obtain tf0 rest where tl: "tfs = tf0 # rest" by (cases tfs) auto
  from assms ne consider "cat_row pk (tf0 # rest) = Inr r" | "cat_col pk tfs = Inr r"
    by (auto simp: cat_def tl split: if_splits)
  then show ?thesis
  proof cases
    case 1
    then obtain yy fd where h: "cat_helper pk (tf0 # rest) 0 = Inr fd"
      and i: "TensorFrame_init pk fd (col_names_dict tf0) yy = Inr r"
      by (rule cat_row_Inr)
    from TensorFrame_init_Inr [OF i] have "feat_dict r = fd" by simp
    with h show ?thesis unfolding tl by blast
  next
    case 2
    then obtain yy fd where h: "cat_helper pk tfs 1 = Inr fd"
      and i: "TensorFrame_init pk fd (merged_col_names tfs) yy = Inr r"
      by (rule cat_col_Inr)
    from TensorFrame_init_Inr [OF i] have "feat_dict r = fd" by simp
    with h show ?thesis by blast
  qed
qed

lemma cat_member_fst: "cat_member fl dm n = Inr y \<Longrightarrow> fst y = n"
  by (auto simp: cat_member_def split: sum.splits)

lemma cat_member_Inr:
  assumes "cat_member fl dm n = Inr y"
  obtains ts t where "try_map (get_member n) fl = Inr ts"
    and "tensor_cat ts dm = Inr t" and "y = (n, t)"
  using assms by (auto simp: cat_member_def MultiNestedTensor_cat_def split: sum.splits)

lemma cat_feat_group:
  assumes "use_dict_multi_nested_tensor pk s" and "cat_feat pk dm s fl = Inr td"
  shows "\<exists>g rest members. fl = GroupT g # rest \<and> td = GroupT members \<and>
           try_map (cat_member fl dm) (map fst g) = Inr members"
  using assms
  by (auto simp: cat_feat_def use_multi_nested_tensor_def use_dict_multi_nested_tensor_def
      split: list.splits TensorData.splits sum.splits)

lemma get_member_Inr:
  "get_member n f = Inr t \<Longrightarrow> \<exists>g. f = GroupT g \<and> map_of g n = Some t"
  by (auto simp: get_member_def split: TensorData.splits option.splits)

lemma all_equal_iff: "all_equal ns \<longleftrightarrow> (\<forall>a\<in>set ns. \<forall>b\<in>set ns. a = b)"
proof (cases ns)
  case Nil
  then show ?thesis by (simp add: all_equal_def)
next
  case (Cons n rest)
  have "all_equal (n # rest) \<longleftrightarrow> (\<forall>m\<in>set rest. m = n)"
    by (simp add: all_equal_def list_all_iff)
  also have "\<dots> \<longleftrightarrow> (\<forall>a\<in>set (n # rest). \<forall>b\<in>set (n # rest). a = b)"
  proof
    assume "\<forall>m\<in>set rest. m = n"
    then have "\<forall>a\<in>set (n # rest). a = n" by simp
    then show "\<forall>a\<in>set (n # rest). \<forall>b\<in>set (n # rest). a = b" by metis
  next
    assume h: "\<forall>a\<in>set (n # rest). \<forall>b\<in>set (n # rest). a = b"
    show "\<forall>m\<in>set rest. m = n"
    proof
      fix m assume "m \<in> set rest"
      then have "m \<in> set (n # rest)" and "n \<in> set (n # rest)" by simp_all
      with h show "m = n" by blast
    qed
  qed
  finally show ?thesis by (simp only: Cons)
qed

lemma tensor_cat1_rows:
  "tensor_cat ts 1 = Inr t \<Longrightarrow> t' \<in> set ts \<Longrightarrow> length (t_rows t') = length (t_rows t)"
  by (auto simp: tensor_cat_def list_all_iff split: list.splits if_splits)

lemma valid_feat:
  assumes v: "valid_frame pk tf" and m: "(s, f) \<in> set (feat_dict tf)"
  shows "td_kind f = pk s" and "td_row_counts f \<noteq> []"
    and "\<forall>n\<in>set (td_row_counts f). n = num_rows tf"
    and "map_of (feat_dict tf) s = Some f"
proof -
  show "td_kind f = pk s"
    using v m by (auto simp: valid_frame_def inv_repr_def list_all_iff)
  have "td_col_counts f \<noteq> []"
    using v m by (auto simp: valid_frame_def inv_cols_def list_all_iff split: option.splits)
  then show ne: "td_row_counts f \<noteq> []"
    by (cases f) (auto simp: td_col_counts_def td_row_counts_def)
  let ?R = "row_counts (feat_dict tf) (tf_y tf)"
  have sub: "set (td_row_counts f) \<subseteq> set ?R"
    using m by (force simp: row_counts_def)
  then have "?R \<noteq> []" using ne by auto
  then have "num_rows tf \<in> set ?R" by (cases ?R) (auto simp: num_rows_def)
  moreover have "all_equal ?R" using v by (simp add: valid_frame_def inv_rows_def)
  ultimately show "\<forall>n\<in>set (td_row_counts f). n = num_rows tf"
    using sub by (auto simp: all_equal_iff)
  have "distinct (map fst (feat_dict tf))" using v by (simp add: valid_frame_def)
  then show "map_of (feat_dict tf) s = Some f" using m by (rule map_of_is_SomeI)
qed

lemma valid_feat_hd:
  assumes "valid_frame pk tf" and "(s, f) \<in> set (feat_dict tf)"
  shows "hd (td_row_counts f) = num_rows tf"
  using valid_feat(2,3) [OF assms] by (cases "td_row_counts f") auto

lemma valid_distinct_feat:
  "list_all (valid_frame pk) tfs \<Longrightarrow> list_all (\<lambda>tf. distinct (map fst (feat_dict tf))) tfs"
  by (auto simp: list_all_iff valid_frame_def)

lemma valid_feats_of:
  assumes v: "list_all (valid_frame pk) tfs" and f: "f \<in> set (feats_of s tfs)"
  shows "\<exists>tf\<in>set tfs. (s, f) \<in> set (feat_dict tf) \<and> valid_frame pk tf"
proof -
  from feats_of_elem [OF f] obtain tf where "tf \<in> set tfs" "map_of (feat_dict tf) s = Some f"
    by blast
  then show ?thesis using v by (auto simp: list_all_iff dest: map_of_SomeD)
qed

text \<open>
  A column concatenation of the storages of one semantic type succeeds only with a
  result that has the row count of every input.
\<close>

lemma cat_feat1_rows:
  assumes cf: "cat_feat pk 1 s fl = Inr td" and f: "f \<in> set fl"
    and kind: "\<And>f'. f' \<in> set fl \<Longrightarrow> td_kind f' = pk s"
    and ae: "\<And>n. n \<in> set (td_row_counts f) \<Longrightarrow> n = m"
    and rc: "td_row_counts f \<noteq> []"
    and g0: "\<And>f'. f' \<in> set fl \<Longrightarrow> td_row_counts f' \<noteq> []"
  shows "m \<in> set (td_row_counts td)"
proof (cases "pk s")
  case Dense
  from cf Dense obtain ts t where tm: "try_map as_dense fl = Inr ts"
    and tc: "tensor_cat ts 1 = Inr t" and td: "td = DenseT t"
    by (auto simp: cat_feat_def use_multi_nested_tensor_def use_dict_multi_nested_tensor_def
        torch_cat_def split: sum.splits)
  from try_map_Inr_in [OF tm f] obtain t' where t': "t' \<in> set ts" "as_dense f = Inr t'"
    by blast
  then have fd: "f = DenseT t'" by (auto simp: as_dense_def split: TensorData.splits)
  have "length (t_rows t') = length (t_rows t)" using tc t'(1) by (rule tensor_cat1_rows)
  moreover have "length (t_rows t') = m" using ae by (simp add: fd td_row_counts_def)
  ultimately show ?thesis by (simp add: td td_row_counts_def)
next
  case Ragged
  from cf Ragged obtain ts t where tm: "try_map as_ragged fl = Inr ts"
    and tc: "tensor_cat ts 1 = Inr t" and td: "td = RaggedT t"
    by (auto simp: cat_feat_def use_multi_nested_tensor_def MultiNestedTensor_cat_def
        split: sum.splits)
  from try_map_Inr_in [OF tm f] obtain t' where t': "t' \<in> set ts" "as_ragged f = Inr t'"
    by blast
  then have fd: "f = RaggedT t'" by (auto simp: as_ragged_def split: TensorData.splits)
  have "length (t_rows t') = length (t_rows t)" using tc t'(1) by (rule tensor_cat1_rows)
  moreover have "length (t_rows t') = m" using ae by (simp add: fd td_row_counts_def)
  ultimately show ?thesis by (simp add: td td_row_counts_def)
next
  case NamedRaggedGroup
  then have ud: "use_dict_multi_nested_tensor pk s"
    by (simp add: use_dict_multi_nested_tensor_def)
  from cat_feat_group [OF ud cf] obtain g rest members where fl: "fl = GroupT g # rest"
    and td: "td = GroupT members"
    and tm: "try_map (cat_member fl 1) (map fst g) = Inr members"
    by blast
  have "td_row_counts (GroupT g) \<noteq> []" using g0 [of "GroupT g"] by (simp add: fl)
  then obtain n0 t0 g' where g: "g = (n0, t0) # g'"
    by (cases g) (auto simp: td_row_counts_def)
  from try_map_Inr_in [OF tm, of n0] obtain y where y: "y \<in> set members"
    "cat_member fl 1 n0 = Inr y"
    by (auto simp: g)
  from y(2) obtain ts t where gm: "try_map (get_member n0) fl = Inr ts"
    and tc: "tensor_cat ts 1 = Inr t" and yt: "y = (n0, t)"
    by (rule cat_member_Inr)
  from try_map_Inr_in [OF gm f] obtain t' where t': "t' \<in> set ts" "get_member n0 f = Inr t'"
    by blast
  from get_member_Inr [OF t'(2)] obtain gf where gf: "f = GroupT gf" "map_of gf n0 = Some t'"
    by blast
  then have "(n0, t') \<in> set gf" by (auto dest: map_of_SomeD)
  then have "length (t_rows t') \<in> set (td_row_counts f)"
    by (force simp: gf(1) td_row_counts_def)
  then have "length (t_rows t') = m" by (rule ae)
  moreover have "length (t_rows t') = length (t_rows t)" using tc t'(1) by (rule tensor_cat1_rows)
  moreover have "length (t_rows t) \<in> set (td_row_counts td)"
    using y(1) by (force simp: td yt td_row_counts_def)
  ultimately show ?thesis by simp
qed

lemma cat_col_err:
  "cat_col pk tfs = Inl e \<Longrightarrow>
     e = AmbiguousTargetError \<or> (\<exists>s ds. e = DuplicateColumnError s ds) \<or> storage_error e"
  by (auto simp: cat_col_def split: sum.splits option.splits prod.splits
      dest: cat_col_y_err cat_helper_err TensorFrame_init_err)

lemma cat_col_rows_equal:
  assumes v: "list_all (valid_frame pk) tfs"
    and st: "list_all (\<lambda>tf. feat_dict tf \<noteq> []) tfs"
    and c: "cat_col pk tfs = Inr r"
    and tf: "tf \<in> set tfs"
  shows "num_rows tf \<in> set (row_counts (feat_dict r) (tf_y r))"
proof -
  from c obtain yy fd where h: "cat_helper pk tfs 1 = Inr fd"
    and i: "TensorFrame_init pk fd (merged_col_names tfs) yy = Inr r"
    by (rule cat_col_Inr)
  from TensorFrame_init_Inr [OF i] have fr: "feat_dict r = fd" by simp
  have vt: "valid_frame pk tf" using v tf by (simp add: list_all_iff)
  from st tf obtain s f where m: "(s, f) \<in> set (feat_dict tf)"
    by (cases "feat_dict tf") (auto simp: list_all_iff)
  note dk = valid_distinct_feat [OF v]
  have mo: "map_of (feat_dict tf) s = Some f" using vt m by (rule valid_feat(4))
  have fin: "f \<in> set (feats_of s tfs)" using tf mo by (rule in_feats_of)
  then have "feats_of s tfs \<noteq> []" by auto
  with dk have "(s, feats_of s tfs) \<in> set (feat_list_dict tfs)" by (rule feat_list_dict_mem)
  from cat_helper_in [OF h this] obtain td where td: "(s, td) \<in> set fd"
    "cat_feat pk 1 s (feats_of s tfs) = Inr td"
    by blast
  have kind: "td_kind f' = pk s" if "f' \<in> set (feats_of s tfs)" for f'
    using valid_feats_of [OF v that] valid_feat(1) by blast
  have g0: "td_row_counts f' \<noteq> []" if "f' \<in> set (feats_of s tfs)" for f'
    using valid_feats_of [OF v that] valid_feat(2) by blast
  have ae: "n = num_rows tf" if "n \<in> set (td_row_counts f)" for n
    using valid_feat(3) [OF vt m] that by blast
  have rc: "td_row_counts f \<noteq> []" using vt m by (rule valid_feat(2))
  have "num_rows tf \<in> set (td_row_counts td)"
    using td(2) fin kind ae rc g0 by (rule cat_feat1_rows)
  then show ?thesis using td(1) by (force simp: fr row_counts_def)
qed

section \<open>Row concatenation of the storages\<close>

lemma valid_keys:
  assumes "valid_frame pk tf"
  shows "fst ` set (feat_dict tf) = fst ` set (col_names_dict tf)"
proof
  show "fst ` set (feat_dict tf) \<subseteq> fst ` set (col_names_dict tf)"
  proof
    fix s assume "s \<in> fst ` set (feat_dict tf)"
    then obtain td where "(s, td) \<in> set (feat_dict tf)" by auto
    then have "map_of (col_names_dict tf) s \<noteq> None"
      using assms by (auto simp: valid_frame_def inv_cols_def list_all_iff split: option.splits)
    then show "s \<in> fst ` set (col_names_dict tf)" by (simp add: map_of_eq_None_iff)
  qed
  show "fst ` set (col_names_dict tf) \<subseteq> fst ` set (feat_dict tf)"
  proof
    fix s assume "s \<in> fst ` set (col_names_dict tf)"
    then obtain names where "(s, names) \<in> set (col_names_dict tf)" by auto
    then have "map_of (feat_dict tf) s \<noteq> None"
      using assms by (auto simp: valid_frame_def inv_cols_def list_all_iff)
    then show "s \<in> fst ` set (feat_dict tf)" by (simp add: map_of_eq_None_iff)
  qed
qed

lemma dict_eq_keys:
  assumes "dict_eq d1 d2" and "distinct (map fst d1)" and "distinct (map fst d2)"
  shows "fst ` set d1 = fst ` set d2"
proof -
  have "map_of d1 = map_of d2" using assms by (simp add: dict_eq_iff)
  then have "dom (map_of d1) = dom (map_of d2)" by simp
  then show ?thesis by (simp add: dom_map_of_conv_image_fst)
qed

lemma dict_extend_hd: "\<exists>v rest. dict_extend ((kh, va) # d) k vs = (kh, v) # rest"
  by simp

lemma foldl_extend_hd:
  "\<exists>v rest. foldl (\<lambda>d (s, x). dict_extend d s (g x)) ((kh, va) # d) l = (kh, v) # rest"
proof (induction l arbitrary: va d)
  case Nil
  show ?case by simp
next
  case (Cons a l)
  obtain k x where a: "a = (k, x)" by (cases a)
  obtain v rest where e: "dict_extend ((kh, va) # d) k (g x) = (kh, v) # rest"
    by (cases "kh = k") auto
  from Cons.IH [of v rest] show ?case by (simp add: a e del: dict_extend.simps)
qed

lemma foldl2_hd:
  "\<exists>v rest. foldl (\<lambda>d tf. foldl (\<lambda>d (s, x). dict_extend d s (g x)) d (p tf))
              ((kh, va) # d) tfs = (kh, v) # rest"
proof (induction tfs arbitrary: va d)
  case Nil
  show ?case by simp
next
  case (Cons tf tfs)
  obtain v rest where e: "foldl (\<lambda>d (s, x). dict_extend d s (g x)) ((kh, va) # d) (p tf)
                            = (kh, v) # rest"
    using foldl_extend_hd [where g = g and kh = kh and va = va and d = d and l = "p tf"]
    by blast
  from Cons.IH [of v rest] show ?case by (simp add: e)
qed

lemma feat_list_dict_hd:
  assumes "feat_dict tf0 = (s0, f0) # fs0"
  shows "\<exists>fl rest. feat_list_dict (tf0 # tfs) = (s0, fl) # rest"
proof -
  obtain v rest where a: "foldl (\<lambda>d (s, x). dict_extend d s [x]) [(s0, [f0])] fs0 = (s0, v) # rest"
    using foldl_extend_hd [where g = "\<lambda>x. [x]" and kh = s0 and va = "[f0]" and d = "[]" and l = fs0]
    by blast
  obtain v' rest' where b:
    "foldl (\<lambda>d tf. foldl (\<lambda>d (s, x). dict_extend d s [x]) d (feat_dict tf)) ((s0, v) # rest) tfs
       = (s0, v') # rest'"
    using foldl2_hd [where g = "\<lambda>x. [x]" and p = feat_dict and kh = s0 and va = v
        and d = rest and tfs = tfs]
    by blast
  show ?thesis unfolding feat_list_dict_alt by (simp add: assms a b)
qed

lemma cat_helper_hd:
  assumes "cat_helper pk tfs dm = Inr fd" and "feat_list_dict tfs = (s0, fl) # rest"
  shows "\<exists>td rest'. fd = (s0, td) # rest' \<and> cat_feat pk dm s0 fl = Inr td"
  using assms by (auto simp: cat_helper_def split: sum.splits)

lemma feats_of_all:
  "\<forall>tf\<in>set tfs. map_of (feat_dict tf) s \<noteq> None \<Longrightarrow>
     feats_of s tfs = map (\<lambda>tf. the (map_of (feat_dict tf) s)) tfs"
  by (induction tfs) (auto simp: feats_of_def)

lemma tensor_cat0_rows:
  "tensor_cat ts 0 = Inr t \<Longrightarrow> length (t_rows t) = sum_list (map (\<lambda>t. length (t_rows t)) ts)"
  by (auto simp: tensor_cat_def length_concat comp_def split: list.splits if_splits)

lemma try_map_as_dense: "try_map as_dense fl = Inr ts \<Longrightarrow> fl = map DenseT ts"
  by (induction fl arbitrary: ts) (auto simp: as_dense_def split: sum.splits TensorData.splits)

lemma try_map_as_ragged: "try_map as_ragged fl = Inr ts \<Longrightarrow> fl = map RaggedT ts"
  by (induction fl arbitrary: ts) (auto simp: as_ragged_def split: sum.splits TensorData.splits)

lemma list_all2_map_eq:
  "list_all2 P xs ys \<Longrightarrow> (\<And>x y. x \<in> set xs \<Longrightarrow> P x y \<Longrightarrow> h x = k y) \<Longrightarrow> map h xs = map k ys"
  by (induction rule: list_all2_induct) auto

text \<open>
  A row concatenation of the storages of one semantic type has as many rows as its
  inputs together; \<open>m f\<close> is the row count of the input \<open>f\<close>.
\<close>

lemma cat_feat0_rows:
  assumes cf: "cat_feat pk 0 s fl = Inr td"
    and ae: "\<And>f n. f \<in> set fl \<Longrightarrow> n \<in> set (td_row_counts f) \<Longrightarrow> n = m f"
    and g0: "\<And>f. f \<in> set fl \<Longrightarrow> td_row_counts f \<noteq> []"
  shows "td_row_counts td \<noteq> [] \<and> hd (td_row_counts td) = sum_list (map m fl)"
proof (cases "pk s")
  case Dense
  from cf Dense obtain ts t where tm: "try_map as_dense fl = Inr ts"
    and tc: "tensor_cat ts 0 = Inr t" and td: "td = DenseT t"
    by (auto simp: cat_feat_def use_multi_nested_tensor_def use_dict_multi_nested_tensor_def
        torch_cat_def split: sum.splits)
  have fl: "fl = map DenseT ts" using tm by (rule try_map_as_dense)
  have "m (DenseT t') = length (t_rows t')" if "t' \<in> set ts" for t'
    using ae [of "DenseT t'" "length (t_rows t')"] that by (simp add: fl td_row_counts_def)
  then have "map m fl = map (\<lambda>t. length (t_rows t)) ts"
    by (simp add: fl comp_def)
  with tensor_cat0_rows [OF tc] show ?thesis by (simp add: td td_row_counts_def)
next
  case Ragged
  from cf Ragged obtain ts t where tm: "try_map as_ragged fl = Inr ts"
    and tc: "tensor_cat ts 0 = Inr t" and td: "td = RaggedT t"
    by (auto simp: cat_feat_def use_multi_nested_tensor_def MultiNestedTensor_cat_def
        split: sum.splits)
  have fl: "fl = map RaggedT ts" using tm by (rule try_map_as_ragged)
  have "m (RaggedT t') = length (t_rows t')" if "t' \<in> set ts" for t'
    using ae [of "RaggedT t'" "length (t_rows t')"] that by (simp add: fl td_row_counts_def)
  then have "map m fl = map (\<lambda>t. length (t_rows t)) ts"
    by (simp add: fl comp_def)
  with tensor_cat0_rows [OF tc] show ?thesis by (simp add: td td_row_counts_def)
next
  case NamedRaggedGroup
  then have ud: "use_dict_multi_nested_tensor pk s"
    by (simp add: use_dict_multi_nested_tensor_def)
  from cat_feat_group [OF ud cf] obtain g rest members where fl: "fl = GroupT g # rest"
    and td: "td = GroupT members"
    and tm: "try_map (cat_member fl 0) (map fst g) = Inr members"
    by blast
  have "td_row_counts (GroupT g) \<noteq> []" using g0 [of "GroupT g"] by (simp add: fl)
  then obtain n0 t0 g' where g: "g = (n0, t0) # g'"
    by (cases g) (auto simp: td_row_counts_def)
  from tm obtain y ms where mem: "members = y # ms" and cm: "cat_member fl 0 n0 = Inr y"
    by (auto simp: g split: sum.splits)
  from cm obtain ts t where gm: "try_map (get_member n0) fl = Inr ts"
    and tc: "tensor_cat ts 0 = Inr t" and yt: "y = (n0, t)"
    by (rule cat_member_Inr)
  have la: "list_all2 (\<lambda>f t'. get_member n0 f = Inr t') fl ts"
    using gm by (rule try_map_Inr_list_all2)
  have "map m fl = map (\<lambda>t. length (t_rows t)) ts"
    using la
  proof (rule list_all2_map_eq)
    fix f t' assume f: "f \<in> set fl" and gmf: "get_member n0 f = Inr t'"
    from get_member_Inr [OF gmf] obtain gf where gf: "f = GroupT gf" "map_of gf n0 = Some t'"
      by blast
    then have "(n0, t') \<in> set gf" by (auto dest: map_of_SomeD)
    then have "length (t_rows t') \<in> set (td_row_counts f)"
      by (force simp: gf(1) td_row_counts_def)
    with f have "length (t_rows t') = m f" by (rule ae)
    then show "m f = length (t_rows t')" by simp
  qed
  with tensor_cat0_rows [OF tc] show ?thesis
    by (simp add: td mem yt td_row_counts_def)
qed

lemma num_rows_no_feat:
  "feat_dict tf = [] \<Longrightarrow> num_rows tf = (case tf_y tf of None \<Rightarrow> 0 | Some v \<Rightarrow> length v)"
  by (simp add: num_rows_def row_counts_def split: option.splits)

section \<open>Column concatenation of the storages\<close>












subsection \<open>The result of the storages satisfies the invariants but the row count\<close>















section \<open>Column concatenation: the target\<close>

text \<open>
  Claim C2. For a column concatenation of a non-empty list of frames: when more than one
  frame carries a target, the operation fails with \<open>AmbiguousTargetError\<close>; when exactly
  one frame carries a target, the target of a result is that target; when no frame
  carries a target, a result has no target.
\<close>

theorem cat_col_target:
  "tf_list \<noteq> [] \<Longrightarrow>
     (1 < length (filter (\<lambda>tf. tf_y tf \<noteq> None) tf_list) \<longrightarrow>
        cat pk tf_list ''col'' = Inl AmbiguousTargetError) \<and>
     (\<forall>tf r. filter (\<lambda>tf. tf_y tf \<noteq> None) tf_list = [tf] \<and> cat pk tf_list ''col'' = Inr r
        \<longrightarrow> tf_y r = tf_y tf) \<and>
     (\<forall>r. filter (\<lambda>tf. tf_y tf \<noteq> None) tf_list = [] \<and> cat pk tf_list ''col'' = Inr r
        \<longrightarrow> tf_y r = None)"
proof (intro conjI allI impI)
  assume ne: "tf_list \<noteq> []"
  { assume "1 < length (filter (\<lambda>tf. tf_y tf \<noteq> None) tf_list)"
    then show "cat pk tf_list ''col'' = Inl AmbiguousTargetError"
      using ne by (simp add: cat_def cat_col_def cat_col_y_many) }
  { fix tf r
    assume h: "filter (\<lambda>tf. tf_y tf \<noteq> None) tf_list = [tf] \<and> cat pk tf_list ''col'' = Inr r"
    then have "cat_col pk tf_list = Inr r" using ne by (simp add: cat_def)
    from cat_col_Inr_y [OF this] h show "tf_y r = tf_y tf"
      by (simp add: cat_col_y_one) }
  { fix r
    assume h: "filter (\<lambda>tf. tf_y tf \<noteq> None) tf_list = [] \<and> cat pk tf_list ''col'' = Inr r"
    then have "cat_col pk tf_list = Inr r" using ne by (simp add: cat_def)
    from cat_col_Inr_y [OF this] h show "tf_y r = None"
      by (simp add: cat_col_y_none) }
qed

lemma example_cat_col_a_c:
  "cat example_pk [frame_a, frame_c] ''col'' =
     Inr \<lparr>feat_dict = [(numerical, DenseT \<lparr>t_cols = 2, t_rows = [[1, 2]]\<rparr>),
                       (categorical, DenseT \<lparr>t_cols = 1, t_rows = [[3]]\<rparr>)],
          col_names_dict = [(numerical, [''a'', ''b'']), (categorical, [''c''])],
          tf_y = Some [7]\<rparr>"
  by code_simp

lemma example_cat_col_c_d:
  "cat example_pk [frame_c, frame_d] ''col'' =
     Inr \<lparr>feat_dict = [(categorical, DenseT \<lparr>t_cols = 1, t_rows = [[3]]\<rparr>),
                       (timestamp, DenseT \<lparr>t_cols = 1, t_rows = [[4]]\<rparr>)],
          col_names_dict = [(categorical, [''c'']), (timestamp, [''d''])],
          tf_y = None\<rparr>"
  by code_simp

theorem cat_col_target_witness:
  "[frame_a, frame_b] \<noteq> [] \<and>
   1 < length (filter (\<lambda>tf. tf_y tf \<noteq> None) [frame_a, frame_b]) \<and>
   cat example_pk [frame_a, frame_b] ''col'' = Inl AmbiguousTargetError \<and>
   filter (\<lambda>tf. tf_y tf \<noteq> None) [frame_a, frame_c] = [frame_a] \<and>
   cat example_pk [frame_a, frame_c] ''col'' =
     Inr \<lparr>feat_dict = [(numerical, DenseT \<lparr>t_cols = 2, t_rows = [[1, 2]]\<rparr>),
                       (categorical, DenseT \<lparr>t_cols = 1, t_rows = [[3]]\<rparr>)],
          col_names_dict = [(numerical, [''a'', ''b'']), (categorical, [''c''])],
          tf_y = Some [7]\<rparr> \<and>
   tf_y frame_a = Some [7] \<and>
   filter (\<lambda>tf. tf_y tf \<noteq> None) [frame_c, frame_d] = [] \<and>
   cat example_pk [frame_c, frame_d] ''col'' =
     Inr \<lparr>feat_dict = [(categorical, DenseT \<lparr>t_cols = 1, t_rows = [[3]]\<rparr>),
                       (timestamp, DenseT \<lparr>t_cols = 1, t_rows = [[4]]\<rparr>)],
          col_names_dict = [(categorical, [''c'']), (timestamp, [''d''])],
          tf_y = None\<rparr>"
proof -
  have many: "1 < length (filter (\<lambda>tf. tf_y tf \<noteq> None) [frame_a, frame_b])"
    by (simp add: frame_a_def frame_b_def)
  have "[frame_a, frame_b] \<noteq> []" by simp
  from cat_col_target [OF this, of example_pk] many
  have amb: "cat example_pk [frame_a, frame_b] ''col'' = Inl AmbiguousTargetError"
    by blast
  have one: "filter (\<lambda>tf. tf_y tf \<noteq> None) [frame_a, frame_c] = [frame_a]"
    by (simp add: frame_a_def frame_c_def)
  have none: "filter (\<lambda>tf. tf_y tf \<noteq> None) [frame_c, frame_d] = []"
    by (simp add: frame_c_def frame_d_def)
  have ya: "tf_y frame_a = Some [7]" by (simp add: frame_a_def)
  show ?thesis
    using many amb one none ya example_cat_col_a_c example_cat_col_c_d by simp
qed

section \<open>Row concatenation: the schema check\<close>

text \<open>
  Claim C4 (amended). For a row concatenation of a non-empty list of frames: when the
  column-name mapping of some frame differs from that of the first frame (other semantic
  types, other names, or the same names in another order), the operation fails with a
  \<open>SchemaMismatch\<close> error. The error reports the whole column-name mapping of the first
  frame, the one every frame is expected to have; it does not name a divergent type.
\<close>

theorem cat_row_schema:
  "tf_list \<noteq> [] \<Longrightarrow> list_all (\<lambda>tf. distinct (map fst (col_names_dict tf))) tf_list \<Longrightarrow>
   list_ex (\<lambda>tf. map_of (col_names_dict tf) \<noteq> map_of (col_names_dict (hd tf_list)))
     (tl tf_list) \<Longrightarrow>
   cat pk tf_list ''row'' = Inl (SchemaMismatch (col_names_dict (hd tf_list)))"
proof -
  assume ne: "tf_list \<noteq> []"
    and dist: "list_all (\<lambda>tf. distinct (map fst (col_names_dict tf))) tf_list"
    and ex: "list_ex (\<lambda>tf. map_of (col_names_dict tf) \<noteq> map_of (col_names_dict (hd tf_list)))
               (tl tf_list)"
  from ne obtain tf0 rest where tl: "tf_list = tf0 # rest" by (cases tf_list) auto
  from ex obtain tf where tf: "tf \<in> set rest"
    "map_of (col_names_dict tf) \<noteq> map_of (col_names_dict tf0)"
    by (auto simp: tl list_ex_iff)
  have "\<not> dict_eq (col_names_dict tf) (col_names_dict tf0)"
    using tf dist by (simp add: tl list_all_iff dict_eq_iff)
  then have "list_ex (\<lambda>tf. \<not> dict_eq (col_names_dict tf) (col_names_dict tf0)) rest"
    using tf(1) by (auto simp: list_ex_iff)
  then show ?thesis by (simp add: cat_def tl)
qed

theorem cat_row_schema_witness:
  "[frame_a, frame_a_swapped] \<noteq> [] \<and>
   list_all (\<lambda>tf. distinct (map fst (col_names_dict tf))) [frame_a, frame_a_swapped] \<and>
   list_ex (\<lambda>tf. map_of (col_names_dict tf)
                   \<noteq> map_of (col_names_dict (hd [frame_a, frame_a_swapped])))
     (tl [frame_a, frame_a_swapped]) \<and>
   col_names_dict frame_a = [(numerical, [''a'', ''b''])] \<and>
   col_names_dict frame_a_swapped = [(numerical, [''b'', ''a''])] \<and>
   cat example_pk [frame_a, frame_a_swapped] ''row''
     = Inl (SchemaMismatch [(numerical, [''a'', ''b''])])"
proof -
  have h1: "[frame_a, frame_a_swapped] \<noteq> []" by simp
  have h2: "list_all (\<lambda>tf. distinct (map fst (col_names_dict tf))) [frame_a, frame_a_swapped]"
    by (simp add: frame_a_def frame_a_swapped_def)
  have "map_of (col_names_dict frame_a_swapped) numerical
          \<noteq> map_of (col_names_dict frame_a) numerical"
    by (simp add: frame_a_def frame_a_swapped_def)
  then have "map_of (col_names_dict frame_a_swapped) \<noteq> map_of (col_names_dict frame_a)"
    by metis
  then have h3: "list_ex (\<lambda>tf. map_of (col_names_dict tf)
                   \<noteq> map_of (col_names_dict (hd [frame_a, frame_a_swapped])))
     (tl [frame_a, frame_a_swapped])"
    by simp
  have ca: "col_names_dict frame_a = [(numerical, [''a'', ''b''])]"
    by (simp add: frame_a_def)
  have cs: "col_names_dict frame_a_swapped = [(numerical, [''b'', ''a''])]"
    by (simp add: frame_a_swapped_def)
  from cat_row_schema [OF h1 h2 h3, of example_pk]
  have h4: "cat example_pk [frame_a, frame_a_swapped] ''row''
     = Inl (SchemaMismatch [(numerical, [''a'', ''b''])])"
    by (simp add: ca)
  from h1 h2 h3 ca cs h4 show ?thesis by blast
qed

text \<open>
  The claim as stated fails: two later frames that diverge from the first at different
  semantic types (\<open>categorical\<close> for \<open>frame_nc_cat\<close>, \<open>numerical\<close> for \<open>frame_nc_num\<close>) raise
  the same error, which prints the first frame's mapping and not the type that diverges.
\<close>

theorem cat_row_schema_counterexample:
  "cat example_pk [frame_nc, frame_nc_cat] ''row''
     = Inl (SchemaMismatch [(numerical, [''a'']), (categorical, [''c''])]) \<and>
   cat example_pk [frame_nc, frame_nc_num] ''row''
     = Inl (SchemaMismatch [(numerical, [''a'']), (categorical, [''c''])])"
  by code_simp

section \<open>Row concatenation: the target check\<close>

text \<open>
  Claim C9 (amended). For a row concatenation of a non-empty list of frames whose
  column-name mappings all equal that of the first frame: the operation fails with a
  \<open>TargetMismatch\<close> error exactly when some frames have a target and others do not; the
  error says which kind the first frame makes it expect.
\<close>

theorem cat_row_target:
  "tf_list \<noteq> [] \<Longrightarrow>
   list_all (\<lambda>tf. dict_eq (col_names_dict tf) (col_names_dict (hd tf_list))) (tl tf_list) \<Longrightarrow>
     ((\<exists>b. cat pk tf_list ''row'' = Inl (TargetMismatch b)) \<longleftrightarrow>
        \<not> (list_all (\<lambda>tf. tf_y tf \<noteq> None) tf_list \<or> list_all (\<lambda>tf. tf_y tf = None) tf_list)) \<and>
     (\<not> (list_all (\<lambda>tf. tf_y tf \<noteq> None) tf_list \<or> list_all (\<lambda>tf. tf_y tf = None) tf_list) \<longrightarrow>
        cat pk tf_list ''row'' = Inl (TargetMismatch (tf_y (hd tf_list) \<noteq> None)))"
proof -
  assume ne: "tf_list \<noteq> []"
    and sch: "list_all (\<lambda>tf. dict_eq (col_names_dict tf) (col_names_dict (hd tf_list)))
                (tl tf_list)"
  from ne obtain tf0 rest where tl: "tf_list = tf0 # rest" by (cases tf_list) auto
  have c: "cat pk tf_list ''row'' = cat_row pk (tf0 # rest)"
    by (simp add: cat_def tl)
  have nsch: "\<not> list_ex (\<lambda>tf. \<not> dict_eq (col_names_dict tf) (col_names_dict tf0)) rest"
    using sch by (simp add: tl list_all_iff list_ex_iff)
  let ?mixed = "\<not> (list_all (\<lambda>tf. tf_y tf \<noteq> None) tf_list
                    \<or> list_all (\<lambda>tf. tf_y tf = None) tf_list)"
  have mixed: "cat_row pk (tf0 # rest) = Inl (TargetMismatch (tf_y tf0 \<noteq> None))" if "?mixed"
    using that nsch unfolding tl by (cases "tf_y tf0") auto
  have unmixed: "cat_row pk (tf0 # rest) \<noteq> Inl (TargetMismatch b)" if "\<not> ?mixed" for b
    using that nsch unfolding tl
    by (auto simp: Let_def split: sum.splits if_splits dest!: cat_helper_err TensorFrame_init_err)
  show ?thesis
  proof (cases ?mixed)
    case True
    have "cat pk tf_list ''row'' = Inl (TargetMismatch (tf_y (hd tf_list) \<noteq> None))"
      unfolding c using mixed [OF True] by (simp only: tl list.sel)
    with True show ?thesis by blast
  next
    case False
    have "\<nexists>b. cat pk tf_list ''row'' = Inl (TargetMismatch b)"
      unfolding c using unmixed [OF False] by blast
    with False show ?thesis by blast
  qed
qed

theorem cat_row_target_witness:
  "[frame_a_no_y, frame_b] \<noteq> [] \<and>
   list_all (\<lambda>tf. dict_eq (col_names_dict tf) (col_names_dict (hd [frame_a_no_y, frame_b])))
     (tl [frame_a_no_y, frame_b]) \<and>
   \<not> (list_all (\<lambda>tf. tf_y tf \<noteq> None) [frame_a_no_y, frame_b]
       \<or> list_all (\<lambda>tf. tf_y tf = None) [frame_a_no_y, frame_b]) \<and>
   cat example_pk [frame_a_no_y, frame_b] ''row'' = Inl (TargetMismatch False)"
proof -
  have h1: "[frame_a_no_y, frame_b] \<noteq> []" by simp
  have h2: "list_all (\<lambda>tf. dict_eq (col_names_dict tf)
                (col_names_dict (hd [frame_a_no_y, frame_b]))) (tl [frame_a_no_y, frame_b])"
    by (simp add: frame_a_no_y_def frame_b_def dict_eq_def)
  have h3: "\<not> (list_all (\<lambda>tf. tf_y tf \<noteq> None) [frame_a_no_y, frame_b]
       \<or> list_all (\<lambda>tf. tf_y tf = None) [frame_a_no_y, frame_b])"
    by (simp add: frame_a_no_y_def frame_b_def)
  from cat_row_target [OF h1 h2, of example_pk] h3
  have "cat example_pk [frame_a_no_y, frame_b] ''row''
          = Inl (TargetMismatch (tf_y (hd [frame_a_no_y, frame_b]) \<noteq> None))"
    by blast
  then have h4: "cat example_pk [frame_a_no_y, frame_b] ''row'' = Inl (TargetMismatch False)"
    by (simp add: frame_a_no_y_def)
  from h1 h2 h3 h4 show ?thesis by blast
qed

text \<open>
  The claim as stated fails: \<open>frame_a\<close> has a target and \<open>frame_c\<close> has none, but their
  column-name mappings differ, and the schema check, which comes first, raises.
\<close>

theorem cat_row_target_counterexample:
  "tf_y frame_a = Some [7] \<and> tf_y frame_c = None \<and>
   cat example_pk [frame_a, frame_c] ''row'' = Inl (SchemaMismatch [(numerical, [''a'', ''b''])])"
  by code_simp

section \<open>Column concatenation: duplicate column names\<close>

text \<open>
  Claim C5 (amended). For a column concatenation of a non-empty list of frames of which
  at most one carries a target: the column-name lists of each semantic type are
  concatenated in input order, and the combined lists are checked for duplicates. When
  some combined list has a duplicate, the operation fails with a \<open>DuplicateColumnError\<close>
  that names the first semantic type, in the order of the combined mapping, whose list
  has duplicates, and lists every name that occurs more than once in that list, once
  each.
\<close>

theorem cat_col_duplicates:
  "tf_list \<noteq> [] \<Longrightarrow>
   list_all (\<lambda>tf. distinct (map fst (col_names_dict tf))) tf_list \<Longrightarrow>
   length (filter (\<lambda>tf. tf_y tf \<noteq> None) tf_list) \<le> 1 \<Longrightarrow>
   \<not> distinct (concat (map (\<lambda>tf. dget (col_names_dict tf) s0) tf_list)) \<Longrightarrow>
   (\<forall>s. dget (merged_col_names tf_list) s
          = concat (map (\<lambda>tf. dget (col_names_dict tf) s) tf_list)) \<and>
   (\<exists>s names.
      find (\<lambda>(s, names). \<not> distinct names) (merged_col_names tf_list) = Some (s, names) \<and>
      names = concat (map (\<lambda>tf. dget (col_names_dict tf) s) tf_list) \<and>
      cat pk tf_list ''col'' = Inl (DuplicateColumnError s (get_duplicates names)) \<and>
      get_duplicates names \<noteq> [] \<and> distinct (get_duplicates names) \<and>
      set (get_duplicates names) = {n. 1 < count_list names n})"
proof -
  assume ne: "tf_list \<noteq> []"
    and dk: "list_all (\<lambda>tf. distinct (map fst (col_names_dict tf))) tf_list"
    and ty: "length (filter (\<lambda>tf. tf_y tf \<noteq> None) tf_list) \<le> 1"
    and dup: "\<not> distinct (concat (map (\<lambda>tf. dget (col_names_dict tf) s0) tf_list))"
  let ?m = "merged_col_names tf_list"
  have agg: "dget ?m s = concat (map (\<lambda>tf. dget (col_names_dict tf) s) tf_list)" for s
    using dk by (rule dget_merged)
  have nd: "\<not> distinct (dget ?m s0)" using dup by (simp add: agg)
  then have "dget ?m s0 \<noteq> []" by auto
  then obtain ns where ns: "map_of ?m s0 = Some ns" "dget ?m s0 = ns"
    by (auto simp: dget_def split: option.splits)
  then have "(s0, ns) \<in> set ?m" by (auto dest: map_of_SomeD)
  with nd ns have "\<exists>x\<in>set ?m. (\<lambda>(s, names). \<not> distinct names) x" by auto
  then have "find (\<lambda>(s, names). \<not> distinct names) ?m \<noteq> None"
    by (auto simp: find_None_iff)
  then obtain s names where f: "find (\<lambda>(s, names). \<not> distinct names) ?m = Some (s, names)"
    by (cases "find (\<lambda>(s, names). \<not> distinct names) ?m") auto
  then have mem: "(s, names) \<in> set ?m" and ndn: "\<not> distinct names"
    by (auto simp: find_Some_iff in_set_conv_nth)
  have names: "names = concat (map (\<lambda>tf. dget (col_names_dict tf) s) tf_list)"
    using dk mem by (rule merged_entry)
  have pred: "(\<lambda>(s, col_names). length (get_duplicates col_names) > 0)
                = (\<lambda>(s, names). \<not> distinct names)"
    by (auto simp: fun_eq_iff get_duplicates_Nil_iff)
  have pred': "(\<lambda>(s, col_names). get_duplicates col_names \<noteq> [])
                = (\<lambda>(s, names). \<not> distinct names)"
    by (auto simp: fun_eq_iff get_duplicates_Nil_iff)
  from cat_col_y_ok [OF ty] obtain yy where yy: "cat_col_y tf_list = Inr yy" ..
  have res: "cat pk tf_list ''col'' = Inl (DuplicateColumnError s (get_duplicates names))"
    using ne by (simp add: cat_def cat_col_def yy pred pred' f)
  have gd: "get_duplicates names \<noteq> []" using ndn by (simp add: get_duplicates_Nil_iff)
  show ?thesis
    using agg f names res gd distinct_get_duplicates [of names] set_get_duplicates [of names]
    by blast
qed

theorem cat_col_duplicates_witness:
  "[frame_a, frame_a_no_y] \<noteq> [] \<and>
   list_all (\<lambda>tf. distinct (map fst (col_names_dict tf))) [frame_a, frame_a_no_y] \<and>
   length (filter (\<lambda>tf. tf_y tf \<noteq> None) [frame_a, frame_a_no_y]) \<le> 1 \<and>
   \<not> distinct (concat (map (\<lambda>tf. dget (col_names_dict tf) numerical) [frame_a, frame_a_no_y])) \<and>
   merged_col_names [frame_a, frame_a_no_y] = [(numerical, [''a'', ''b'', ''a'', ''b''])] \<and>
   cat example_pk [frame_a, frame_a_no_y] ''col''
     = Inl (DuplicateColumnError numerical [''a'', ''b''])"
proof -
  have h1: "[frame_a, frame_a_no_y] \<noteq> []" by simp
  have h2: "list_all (\<lambda>tf. distinct (map fst (col_names_dict tf))) [frame_a, frame_a_no_y]"
    by (simp add: frame_a_def frame_a_no_y_def)
  have h3: "length (filter (\<lambda>tf. tf_y tf \<noteq> None) [frame_a, frame_a_no_y]) \<le> 1"
    by (simp add: frame_a_def frame_a_no_y_def)
  have h4: "\<not> distinct (concat (map (\<lambda>tf. dget (col_names_dict tf) numerical)
                                 [frame_a, frame_a_no_y]))"
    by (simp add: frame_a_def frame_a_no_y_def dget_def)
  have m: "merged_col_names [frame_a, frame_a_no_y] = [(numerical, [''a'', ''b'', ''a'', ''b''])]"
    by (simp add: merged_col_names_def frame_a_def frame_a_no_y_def)
  have g: "get_duplicates [''a'', ''b'', ''a'', ''b''] = [''a'', ''b'']"
    by code_simp
  from cat_col_duplicates [OF h1 h2 h3 h4, of example_pk]
  obtain s names where
    "find (\<lambda>(s, names). \<not> distinct names) (merged_col_names [frame_a, frame_a_no_y])
       = Some (s, names)"
    and r: "cat example_pk [frame_a, frame_a_no_y] ''col''
       = Inl (DuplicateColumnError s (get_duplicates names))"
    by blast
  then have "s = numerical \<and> names = [''a'', ''b'', ''a'', ''b'']"
    by (simp add: m)
  with r g have h5: "cat example_pk [frame_a, frame_a_no_y] ''col''
     = Inl (DuplicateColumnError numerical [''a'', ''b''])"
    by simp
  from h1 h2 h3 h4 m h5 show ?thesis by blast
qed

text \<open>
  The claim as stated fails: \<open>frame_a\<close> and \<open>frame_b\<close> have the same column names, so the
  combined list has duplicates, but both carry a target, and the target check, which
  comes first, raises.
\<close>

theorem cat_col_duplicates_counterexample:
  "merged_col_names [frame_a, frame_b] = [(numerical, [''a'', ''b'', ''a'', ''b''])] \<and>
   cat example_pk [frame_a, frame_b] ''col'' = Inl AmbiguousTargetError"
  by code_simp

section \<open>Statistics of a categorical column\<close>




section \<open>Statistics of a multicategorical column\<close>

lemma tokens_not_null: "t \<in> set (tokens_of sp c) \<Longrightarrow> \<not> isnull t"
  by (auto simp: tokens_of_def split_by_sep_def split: cell.splits if_splits)

lemma dropna_explode:
  "(\<And>ts t. ts \<in> set rows \<Longrightarrow> t \<in> set ts \<Longrightarrow> \<not> isnull t) \<Longrightarrow> dropna (explode rows) = concat rows"
proof (induction rows)
  case Nil
  show ?case by (simp add: dropna_def explode_def)
next
  case (Cons ts rows)
  have a: "filter (\<lambda>c. \<not> isnull c) ts = ts"
    using Cons.prems by (intro filter_True) auto
  have "dropna (explode rows) = concat rows"
    using Cons.prems by (intro Cons.IH) auto
  then show ?case using a by (simp add: dropna_def explode_def)
qed

lemma split_by_sep_tokens: "is_str c \<Longrightarrow> split_by_sep c sp = Inr (tokens_of sp c)"
  by (cases c) (simp_all add: is_str_def tokens_of_def split_by_sep_def)

lemma tokens_not_seq: "t \<in> set (tokens_of sp c) \<Longrightarrow> \<not> is_seq t"
  by (auto simp: tokens_of_def split_by_sep_def split: cell.splits if_splits)

lemma tokens_dropna:
  "dropna (concat (map (tokens_of sp) ser)) = concat (map (tokens_of sp) ser)"
  unfolding dropna_def by (rule filter_True) (auto dest: tokens_not_null)

lemma tokens_no_seq: "\<not> list_ex is_seq (concat (map (tokens_of sp) ser))"
  by (auto simp: list_ex_iff dest: tokens_not_seq)

lemma compute_col_stats_multicategorical:
  assumes nn: "\<not> list_all isnull ser"
    and str: "list_all (\<lambda>c. isnull c \<or> is_str c) ser"
  shows "compute_col_stats srt to_year ser multicategorical (Some sp) time_format
     = Inr [(MULTI_COUNT,
             CountS (map fst (srt (Counter (concat (map (tokens_of sp) (dropna ser))))))
                    (map snd (srt (Counter (concat (map (tokens_of sp) (dropna ser)))))))]"
proof -
  let ?T = "concat (map (tokens_of sp) (dropna ser))"
  have s: "is_str c" if "c \<in> set (dropna ser)" for c
    using that str by (auto simp: dropna_def list_all_iff)
  have tm: "try_map (\<lambda>row. split_by_sep row sp) (dropna ser)
              = Inr (map (tokens_of sp) (dropna ser))"
    by (rule try_map_Inr_all) (simp add: s split_by_sep_tokens)
  have de: "dropna (explode (map (tokens_of sp) (dropna ser))) = ?T"
    by (rule dropna_explode) (auto dest: tokens_not_null)
  have "\<not> list_ex is_seq (dropna ?T)" by (simp add: tokens_dropna tokens_no_seq)
  then have vc: "value_counts srt ?T = Inr (srt (Counter ?T))"
    using value_counts_Inr [of ?T srt] by (simp add: tokens_dropna)
  show ?thesis
    using nn by (simp add: compute_col_stats_def tm de vc)
qed

text \<open>
  Claim C8. For a multicategorical column with a non-missing value: without a separator
  the computation fails with \<open>MissingSeparatorError\<close>; with a separator, each cell is split
  into its tokens, the tokens are flattened, the missing entries excluded, and the result
  is the frequency table that the categorical case computes on the column of these
  tokens. The column \<open>["x/y", "y", None]\<close> with the separator \<open>"/"\<close> yields
  \<open>(["y", "x"], [2, 1])\<close>. This holds for every sort that \<^verbatim>\<open>value_counts\<close> may use.
\<close>

theorem multicategorical_count:
  assumes ok: "sort_values_ok srt"
  shows "(\<not> list_all isnull ser \<longrightarrow>
      compute_col_stats srt to_year ser multicategorical None time_format
        = Inl MissingSeparatorError \<and>
      (list_all (\<lambda>c. isnull c \<or> is_str c) ser \<longrightarrow>
         (\<exists>keys counts.
            compute_col_stats srt to_year ser multicategorical (Some sp) time_format
              = Inr [(MULTI_COUNT, CountS keys counts)] \<and>
            compute_col_stats srt to_year (concat (map (tokens_of sp) (dropna ser)))
                categorical sep' time_format'
              = Inr [(COUNT, CountS keys counts)]))) \<and>
   compute_col_stats srt to_year [StrC ''x/y'', StrC ''y'', NoneC] multicategorical
       (Some ''/'') time_format
     = Inr [(MULTI_COUNT, CountS [StrC ''y'', StrC ''x''] [2, 1])]"
proof (intro conjI impI)
  assume nn: "\<not> list_all isnull ser"
  then show "compute_col_stats srt to_year ser multicategorical None time_format
        = Inl MissingSeparatorError"
    by (simp add: compute_col_stats_def)
  assume str: "list_all (\<lambda>c. isnull c \<or> is_str c) ser"
  let ?T = "concat (map (tokens_of sp) (dropna ser))"
  have "compute_col_stats srt to_year ?T categorical sep' time_format'
          = Inr [(COUNT, CountS (map fst (srt (Counter ?T))) (map snd (srt (Counter ?T))))]"
    using compute_col_stats_categorical
        [OF ok tokens_no_seq [of sp "dropna ser"], of to_year sep' time_format']
    by (simp add: tokens_dropna)
  with compute_col_stats_multicategorical [OF nn str, of srt to_year sp time_format]
  show "\<exists>keys counts.
            compute_col_stats srt to_year ser multicategorical (Some sp) time_format
              = Inr [(MULTI_COUNT, CountS keys counts)] \<and>
            compute_col_stats srt to_year (concat (map (tokens_of sp) (dropna ser)))
                categorical sep' time_format'
              = Inr [(COUNT, CountS keys counts)]"
    by blast
next
  let ?ser = "[StrC ''x/y'', StrC ''y'', NoneC]"
  have nn: "\<not> list_all isnull ?ser" by simp
  have str: "list_all (\<lambda>c. isnull c \<or> is_str c) ?ser"
    by (simp add: is_str_def)
  have cnt: "Counter (concat (map (tokens_of ''/'') (dropna ?ser)))
               = [(StrC ''x'', 1), (StrC ''y'', 2)]"
    by code_simp
  have "srt (Counter (concat (map (tokens_of ''/'') (dropna ?ser))))
          = sort_key (\<lambda>p. - int (snd p)) (Counter (concat (map (tokens_of ''/'') (dropna ?ser))))"
    using ok by (rule sort_ok_unique) (simp add: cnt)
  also have "\<dots> = [(StrC ''y'', 2), (StrC ''x'', 1)]"
    by (simp add: cnt)
  finally have m: "srt (Counter (concat (map (tokens_of ''/'') (dropna ?ser))))
                     = [(StrC ''y'', 2), (StrC ''x'', 1)]" .
  from compute_col_stats_multicategorical [OF nn str, of srt to_year "''/''" time_format]
  show "compute_col_stats srt to_year ?ser multicategorical (Some ''/'') time_format
     = Inr [(MULTI_COUNT, CountS [StrC ''y'', StrC ''x''] [2, 1])]"
    by (simp add: m)
qed

theorem multicategorical_count_witness:
  "sort_values_ok stable_sort_values \<and>
   \<not> list_all isnull [StrC ''x/y'', StrC ''y'', NoneC] \<and>
   list_all (\<lambda>c. isnull c \<or> is_str c) [StrC ''x/y'', StrC ''y'', NoneC] \<and>
   compute_col_stats stable_sort_values no_year [StrC ''x/y'', StrC ''y'', NoneC]
       multicategorical None None = Inl MissingSeparatorError \<and>
   concat (map (tokens_of ''/'') (dropna [StrC ''x/y'', StrC ''y'', NoneC]))
     = [StrC ''x'', StrC ''y'', StrC ''y''] \<and>
   compute_col_stats stable_sort_values no_year [StrC ''x/y'', StrC ''y'', NoneC]
       multicategorical (Some ''/'') None
     = Inr [(MULTI_COUNT, CountS [StrC ''y'', StrC ''x''] [2, 1])] \<and>
   compute_col_stats stable_sort_values no_year [StrC ''x'', StrC ''y'', StrC ''y'']
       categorical None None = Inr [(COUNT, CountS [StrC ''y'', StrC ''x''] [2, 1])]"
proof -
  let ?ser = "[StrC ''x/y'', StrC ''y'', NoneC]"
  have nn: "\<not> list_all isnull ?ser" by simp
  have str: "list_all (\<lambda>c. isnull c \<or> is_str c) ?ser" by (simp add: is_str_def)
  have tk: "concat (map (tokens_of ''/'') (dropna ?ser)) = [StrC ''x'', StrC ''y'', StrC ''y'']"
    by code_simp
  note th = multicategorical_count [OF sort_values_ok_stable,
      of ?ser no_year None "''/''" None None]
  from th nn have a: "compute_col_stats stable_sort_values no_year ?ser multicategorical
                        None None = Inl MissingSeparatorError"
    by blast
  from th have b: "compute_col_stats stable_sort_values no_year ?ser multicategorical
                     (Some ''/'') None
                     = Inr [(MULTI_COUNT, CountS [StrC ''y'', StrC ''x''] [2, 1])]"
    by blast
  from th nn str obtain keys counts where
    k1: "compute_col_stats stable_sort_values no_year ?ser multicategorical (Some ''/'') None
           = Inr [(MULTI_COUNT, CountS keys counts)]"
    and k2: "compute_col_stats stable_sort_values no_year
               (concat (map (tokens_of ''/'') (dropna ?ser)))
               categorical None None = Inr [(COUNT, CountS keys counts)]"
    by blast
  from k1 b have "keys = [StrC ''y'', StrC ''x''] \<and> counts = [2, 1]" by simp
  with k2 tk have c: "compute_col_stats stable_sort_values no_year
       [StrC ''x'', StrC ''y'', StrC ''y''] categorical
       None None = Inr [(COUNT, CountS [StrC ''y'', StrC ''x''] [2, 1])]"
    by simp
  from sort_values_ok_stable nn str a tk b c show ?thesis by blast
qed

section \<open>Statistics of a numerical column\<close>

text \<open>
  Claim C3, at the input where the code departs from it. A sequence-numerical column
  whose only cell is the empty sequence has no finite entry, and nothing of it is
  missing; \<^verbatim>\<open>np.hstack\<close> receives an empty array and raises, before the test that would
  return the not-a-number sentinel.
\<close>

theorem empty_sequences_raise:
  "compute_col_stats sort_values to_year [SeqC []] sequence_numerical sep time_format
     = Inl ValueError"
  by (simp add: compute_col_stats_def dropna_def flattened_def np_hstack_def)

section \<open>The member names of a dict of ragged tensors\<close>

text \<open>
  Claim C10. For a row or column concatenation of frames that hold a dict of ragged
  tensors under a semantic type: the member names of the output's dict are exactly those
  of the first input dict of that type; a member name of the first dict that a later
  input dict lacks makes the operation fail; a name that only later dicts have is left
  out without an error.
\<close>

theorem group_member_names:
  assumes ne: "tf_list \<noteq> []"
    and al: "along = ''row'' \<or> along = ''col''"
    and dk: "list_all (\<lambda>tf. distinct (map fst (feat_dict tf))) tf_list"
    and ud: "use_dict_multi_nested_tensor pk s"
  shows "(\<forall>r td. cat pk tf_list along = Inr r \<and> (s, td) \<in> set (feat_dict r) \<longrightarrow>
            (\<exists>g rest members. feats_of s tf_list = GroupT g # rest \<and> td = GroupT members \<and>
               map fst members = map fst g)) \<and>
         (\<forall>g rest g' name. feats_of s tf_list = GroupT g # rest \<and> GroupT g' \<in> set rest \<and>
               name \<in> fst ` set g \<and> name \<notin> fst ` set g' \<longrightarrow>
            isl (cat pk tf_list along))"
proof (intro conjI allI impI)
  fix r td
  assume a: "cat pk tf_list along = Inr r \<and> (s, td) \<in> set (feat_dict r)"
  from cat_Inr_helper [of pk tf_list along r] a
  obtain dm where h: "cat_helper pk tf_list dm = Inr (feat_dict r)" by blast
  from cat_helper_out [OF h] a obtain fl where fl: "(s, fl) \<in> set (feat_list_dict tf_list)"
    "cat_feat pk dm s fl = Inr td"
    by blast
  have fe: "fl = feats_of s tf_list" using dk fl(1) by (rule feat_list_dict_entry(1))
  from cat_feat_group [OF ud fl(2)] obtain g rest members where g: "fl = GroupT g # rest"
    "td = GroupT members" "try_map (cat_member fl dm) (map fst g) = Inr members"
    by blast
  have "map fst members = map (\<lambda>n. n) (map fst g)"
    using g(3) by (rule try_map_Inr_map) (rule cat_member_fst)
  then show "\<exists>g rest members. feats_of s tf_list = GroupT g # rest \<and> td = GroupT members \<and>
               map fst members = map fst g"
    using g fe by auto
next
  fix g rest g' name
  assume a: "feats_of s tf_list = GroupT g # rest \<and> GroupT g' \<in> set rest \<and>
               name \<in> fst ` set g \<and> name \<notin> fst ` set g'"
  show "isl (cat pk tf_list along)"
  proof (rule ccontr)
    assume "\<not> isl (cat pk tf_list along)"
    then obtain r where c: "cat pk tf_list along = Inr r"
      by (cases "cat pk tf_list along") auto
    from cat_Inr_helper [OF c] obtain dm where h: "cat_helper pk tf_list dm = Inr (feat_dict r)"
      by blast
    have "feats_of s tf_list \<noteq> []" using a by simp
    with dk have "(s, feats_of s tf_list) \<in> set (feat_list_dict tf_list)"
      by (rule feat_list_dict_mem)
    from cat_helper_in [OF h this] obtain td
      where cf: "cat_feat pk dm s (feats_of s tf_list) = Inr td"
      by blast
    from cat_feat_group [OF ud cf] a obtain members
      where tm: "try_map (cat_member (GroupT g # rest) dm) (map fst g) = Inr members"
      by auto
    from try_map_Inr_in [OF tm, of name] a
    obtain y where "cat_member (GroupT g # rest) dm name = Inr y"
      by auto
    then obtain ts where gm: "try_map (get_member name) (GroupT g # rest) = Inr ts"
      by (auto elim: cat_member_Inr)
    from try_map_Inr_in [OF gm, of "GroupT g'"] a
    obtain t where "get_member name (GroupT g') = Inr t"
      by auto
    from get_member_Inr [OF this] have "map_of g' name = Some t" by simp
    then have "name \<in> fst ` set g'" by (force dest: map_of_SomeD)
    with a show False by simp
  qed
qed

lemma example_cat_row_g1_g2:
  "cat example_pk [frame_g1, frame_g2] ''row'' =
     Inr \<lparr>feat_dict = [(embedding, GroupT [(''m'', \<lparr>t_cols = 1, t_rows = [[[1]], [[2, 3]]]\<rparr>)])],
          col_names_dict = [(embedding, [''e''])], tf_y = None\<rparr>"
  by code_simp

lemma example_cat_row_g2_g1:
  "cat example_pk [frame_g2, frame_g1] ''row'' = Inl (KeyError ''x'')"
  by code_simp

theorem group_member_names_witness:
  "[frame_g2, frame_g1] \<noteq> [] \<and>
   list_all (\<lambda>tf. distinct (map fst (feat_dict tf))) [frame_g2, frame_g1] \<and>
   use_dict_multi_nested_tensor example_pk embedding \<and>
   feats_of embedding [frame_g2, frame_g1]
     = [GroupT [(''m'', \<lparr>t_cols = 1, t_rows = [[[2, 3]]]\<rparr>), (''x'', \<lparr>t_cols = 1, t_rows = [[[9]]]\<rparr>)],
        GroupT [(''m'', \<lparr>t_cols = 1, t_rows = [[[1]]]\<rparr>)]] \<and>
   isl (cat example_pk [frame_g2, frame_g1] ''row'') \<and>
   cat example_pk [frame_g2, frame_g1] ''row'' = Inl (KeyError ''x'') \<and>
   cat example_pk [frame_g1, frame_g2] ''row'' =
     Inr \<lparr>feat_dict = [(embedding, GroupT [(''m'', \<lparr>t_cols = 1, t_rows = [[[1]], [[2, 3]]]\<rparr>)])],
          col_names_dict = [(embedding, [''e''])], tf_y = None\<rparr>"
proof -
  have h1: "[frame_g2, frame_g1] \<noteq> []" by simp
  have h2: "''row'' = ''row'' \<or> ''row'' = ''col''" by simp
  have h3: "list_all (\<lambda>tf. distinct (map fst (feat_dict tf))) [frame_g2, frame_g1]"
    by (simp add: frame_g1_def frame_g2_def)
  have h4: "use_dict_multi_nested_tensor example_pk embedding"
    by (simp add: use_dict_multi_nested_tensor_def example_pk_def)
  have h5: "feats_of embedding [frame_g2, frame_g1]
     = [GroupT [(''m'', \<lparr>t_cols = 1, t_rows = [[[2, 3]]]\<rparr>), (''x'', \<lparr>t_cols = 1, t_rows = [[[9]]]\<rparr>)],
        GroupT [(''m'', \<lparr>t_cols = 1, t_rows = [[[1]]]\<rparr>)]]"
    by (simp add: feats_of_def frame_g1_def frame_g2_def)
  have "GroupT [(''m'', \<lparr>t_cols = 1, t_rows = [[[1::int]]]\<rparr>)]
          \<in> set [GroupT [(''m'', \<lparr>t_cols = 1, t_rows = [[[1]]]\<rparr>)]]
        \<and> ''x'' \<in> fst ` set [(''m'', \<lparr>t_cols = 1, t_rows = [[[2, 3::int]]]\<rparr>),
                               (''x'', \<lparr>t_cols = 1, t_rows = [[[9]]]\<rparr>)]
        \<and> ''x'' \<notin> fst ` set [(''m'', \<lparr>t_cols = 1, t_rows = [[[1::int]]]\<rparr>)]"
    by simp
  with group_member_names [OF h1 h2 h3 h4] h5
  have h6: "isl (cat example_pk [frame_g2, frame_g1] ''row'')"
    by blast
  from h1 h3 h4 h5 h6 example_cat_row_g2_g1 example_cat_row_g1_g2 show ?thesis by blast
qed

section \<open>Column concatenation: the row counts\<close>





section \<open>Row concatenation: the result\<close>

text \<open>
  Claim C6. For a successful row concatenation of a non-empty list of valid frames: the
  row count of the output is the sum of the row counts of the inputs; the target, when
  the inputs have one, is the concatenation of their targets in input order, and is
  absent otherwise; the column names of the output are those of the first input, and its
  set of semantic types is that of the first input.
\<close>

theorem cat_row_result:
  assumes ne: "tf_list \<noteq> []"
    and v: "list_all (valid_frame pk) tf_list"
    and c: "cat pk tf_list ''row'' = Inr r"
  shows "num_rows r = sum_list (map num_rows tf_list) \<and>
         tf_y r = (if list_all (\<lambda>tf. tf_y tf \<noteq> None) tf_list
                   then Some (concat (map (\<lambda>tf. the (tf_y tf)) tf_list)) else None) \<and>
         col_names_dict r = col_names_dict (hd tf_list) \<and>
         set (map fst (feat_dict r)) = set (map fst (feat_dict (hd tf_list)))"
proof -
  from ne obtain tf0 rest where tl: "tf_list = tf0 # rest" by (cases tf_list) auto
  from c have cr: "cat_row pk (tf0 # rest) = Inr r" by (simp add: cat_def tl)
  from cr obtain yy fd where
    sch: "\<not> list_ex (\<lambda>tf. \<not> dict_eq (col_names_dict tf) (col_names_dict tf0)) rest"
    and h: "cat_helper pk (tf0 # rest) 0 = Inr fd"
    and i: "TensorFrame_init pk fd (col_names_dict tf0) yy = Inr r"
    and yyd: "yy = (if tf_y tf0 \<noteq> None
               then Some (concat (map (\<lambda>tf. the (tf_y tf)) (tf0 # rest))) else None)"
    and tg: "list_all (\<lambda>tf. tf_y tf \<noteq> None) (tf0 # rest)
               \<or> list_all (\<lambda>tf. tf_y tf = None) (tf0 # rest)"
    by (rule cat_row_Inr)
  from TensorFrame_init_Inr [OF i]
  have r: "r = \<lparr>feat_dict = fd, col_names_dict = col_names_dict tf0, tf_y = yy\<rparr>" by simp
  have fr: "feat_dict r = fd" and yr: "tf_y r = yy" and cn: "col_names_dict r = col_names_dict tf0"
    by (simp_all add: r)
  note dk = valid_distinct_feat [OF v]
  have v0: "valid_frame pk tf0" using v by (simp add: tl)
  have vt: "valid_frame pk tf" if "tf \<in> set tf_list" for tf
    using v that by (simp add: list_all_iff)
  \<comment> \<open>the target\<close>
  have allS: "list_all (\<lambda>tf. tf_y tf \<noteq> None) tf_list \<longleftrightarrow> tf_y tf0 \<noteq> None"
  proof (cases "tf_y tf0")
    case None
    then show ?thesis by (simp add: tl)
  next
    case (Some y0)
    with tg show ?thesis by (auto simp: tl)
  qed
  have ty: "tf_y r = (if list_all (\<lambda>tf. tf_y tf \<noteq> None) tf_list
                   then Some (concat (map (\<lambda>tf. the (tf_y tf)) tf_list)) else None)"
  proof (cases "tf_y tf0")
    case None
    then have "\<not> list_all (\<lambda>tf. tf_y tf \<noteq> None) tf_list" by (simp add: tl)
    moreover have "yy = None" unfolding yyd using None by simp
    ultimately show ?thesis unfolding yr by simp
  next
    case (Some y0)
    then have "list_all (\<lambda>tf. tf_y tf \<noteq> None) tf_list" using allS by simp
    moreover have "yy = Some (concat (map (\<lambda>tf. the (tf_y tf)) tf_list))"
      unfolding yyd tl using Some by simp
    ultimately show ?thesis unfolding yr by simp
  qed
  \<comment> \<open>the semantic types\<close>
  have keys: "fst ` set (feat_dict tf) = fst ` set (feat_dict tf0)" if "tf \<in> set tf_list" for tf
  proof (cases "tf = tf0")
    case True
    then show ?thesis by simp
  next
    case False
    with that have tr: "tf \<in> set rest" by (simp add: tl)
    with sch have de: "dict_eq (col_names_dict tf) (col_names_dict tf0)"
      by (auto simp: list_ex_iff)
    have "fst ` set (col_names_dict tf) = fst ` set (col_names_dict tf0)"
      using de vt [OF that] v0 by (intro dict_eq_keys) (simp_all add: valid_frame_def)
    then show ?thesis using valid_keys [OF vt [OF that]] valid_keys [OF v0] by simp
  qed
  have "map fst fd = map fst (feat_list_dict tf_list)"
    using h unfolding tl by (rule cat_helper_keys)
  then have "fst ` set fd = fst ` set (feat_list_dict tf_list)"
    by (metis set_map)
  also have "\<dots> = (\<Union>tf\<in>set tf_list. fst ` set (feat_dict tf))"
    by (rule keys_feat_list_dict)
  also have "\<dots> = fst ` set (feat_dict tf0)"
  proof
    show "(\<Union>tf\<in>set tf_list. fst ` set (feat_dict tf)) \<subseteq> fst ` set (feat_dict tf0)"
    proof
      fix x assume "x \<in> (\<Union>tf\<in>set tf_list. fst ` set (feat_dict tf))"
      then obtain tf where t: "tf \<in> set tf_list" and x: "x \<in> fst ` set (feat_dict tf)"
        by blast
      from x keys [OF t] show "x \<in> fst ` set (feat_dict tf0)" by simp
    qed
    have "tf0 \<in> set tf_list" by (simp add: tl)
    then show "fst ` set (feat_dict tf0) \<subseteq> (\<Union>tf\<in>set tf_list. fst ` set (feat_dict tf))"
      by blast
  qed
  finally have kfd: "fst ` set fd = fst ` set (feat_dict tf0)" .
  \<comment> \<open>the row count\<close>
  have nr: "num_rows r = sum_list (map num_rows tf_list)"
  proof (cases "feat_dict tf0")
    case Nil
    then have "fst ` set fd = {}" using kfd by simp
    then have fd0: "fd = []" by simp
    have e: "feat_dict tf = []" if "tf \<in> set tf_list" for tf
      using keys [OF that] Nil by simp
    have n: "num_rows tf = (case tf_y tf of None \<Rightarrow> 0 | Some v \<Rightarrow> length v)"
      if "tf \<in> set tf_list" for tf
      using e [OF that] by (rule num_rows_no_feat)
    have nrr: "num_rows r = (case yy of None \<Rightarrow> 0 | Some v \<Rightarrow> length v)"
      by (simp add: num_rows_no_feat fr fd0 yr)
    show ?thesis
    proof (cases "tf_y tf0")
      case None
      then have "list_all (\<lambda>tf. tf_y tf = None) tf_list" using tg by (auto simp: tl)
      then have "num_rows tf = 0" if "tf \<in> set tf_list" for tf
        using n [OF that] that by (simp add: list_all_iff)
      then have "sum_list (map num_rows tf_list) = 0" by simp
      then show ?thesis using None by (simp add: nrr yyd)
    next
      case (Some y0)
      then have as: "list_all (\<lambda>tf. tf_y tf \<noteq> None) tf_list" using tg by (auto simp: tl)
      have meq: "map (\<lambda>tf. length (the (tf_y tf))) tf_list = map num_rows tf_list"
      proof (rule map_cong [OF refl])
        fix tf assume t: "tf \<in> set tf_list"
        then obtain y where "tf_y tf = Some y" using as by (auto simp: list_all_iff)
        then show "length (the (tf_y tf)) = num_rows tf" using n [OF t] by simp
      qed
      have "length (concat (map (\<lambda>tf. the (tf_y tf)) tf_list))
              = sum_list (map (\<lambda>tf. length (the (tf_y tf))) tf_list)"
        by (simp add: length_concat comp_def)
      also have "\<dots> = sum_list (map num_rows tf_list)"
        by (rule arg_cong [OF meq])
      finally have lc: "length (concat (map (\<lambda>tf. the (tf_y tf)) tf_list))
                          = sum_list (map num_rows tf_list)" .
      have yy2: "yy = Some (concat (map (\<lambda>tf. the (tf_y tf)) tf_list))"
        using Some by (simp add: yyd tl)
      show ?thesis by (simp only: nrr yy2 option.case lc)
    qed
  next
    case (Cons a fs0)
    obtain s0 f0 where a: "a = (s0, f0)" by (cases a)
    have fd0: "feat_dict tf0 = (s0, f0) # fs0" using Cons a by simp
    from feat_list_dict_hd [OF fd0, of rest] obtain fl restf
      where fld: "feat_list_dict (tf0 # rest) = (s0, fl) # restf" by blast
    from cat_helper_hd [OF h fld] obtain td rest' where fdc: "fd = (s0, td) # rest'"
      and cf: "cat_feat pk 0 s0 fl = Inr td" by blast
    have fle: "fl = feats_of s0 tf_list"
      using dk unfolding tl by (rule feat_list_dict_entry(1)) (simp add: fld)
    have has: "map_of (feat_dict tf) s0 \<noteq> None" if "tf \<in> set tf_list" for tf
    proof -
      have "s0 \<in> fst ` set (feat_dict tf)" using keys [OF that] fd0 by simp
      then show ?thesis by (simp add: map_of_eq_None_iff)
    qed
    then have flm: "fl = map (\<lambda>tf. the (map_of (feat_dict tf) s0)) tf_list"
      unfolding fle by (intro feats_of_all) blast
    have rows: "td_row_counts td \<noteq> [] \<and>
                  hd (td_row_counts td) = sum_list (map (\<lambda>f. hd (td_row_counts f)) fl)"
      using cf
    proof (rule cat_feat0_rows)
      fix f n assume f: "f \<in> set fl" and n: "n \<in> set (td_row_counts f)"
      from valid_feats_of [OF v] f obtain tf where t: "(s0, f) \<in> set (feat_dict tf)"
        "valid_frame pk tf"
        unfolding fle by blast
      from valid_feat(3) [OF t(2) t(1)] n have "n = num_rows tf" by blast
      then show "n = hd (td_row_counts f)" using valid_feat_hd [OF t(2) t(1)] by simp
    next
      fix f assume f: "f \<in> set fl"
      from valid_feats_of [OF v] f obtain tf where t: "(s0, f) \<in> set (feat_dict tf)"
        "valid_frame pk tf"
        unfolding fle by blast
      then show "td_row_counts f \<noteq> []" using valid_feat(2) by blast
    qed
    have "map (\<lambda>f. hd (td_row_counts f)) fl = map num_rows tf_list"
      unfolding flm map_map comp_def
    proof (rule map_cong [OF refl])
      fix tf assume t: "tf \<in> set tf_list"
      from has [OF t] obtain f where f: "map_of (feat_dict tf) s0 = Some f" by auto
      then have "(s0, f) \<in> set (feat_dict tf)" by (rule map_of_SomeD)
      from valid_feat_hd [OF vt [OF t] this]
      show "hd (td_row_counts (the (map_of (feat_dict tf) s0))) = num_rows tf"
        by (simp add: f)
    qed
    with rows have "hd (td_row_counts td) = sum_list (map num_rows tf_list)"
      and "td_row_counts td \<noteq> []" by simp_all
    then show ?thesis
      by (cases "td_row_counts td") (simp_all add: num_rows_def row_counts_def fr fdc)
  qed
  have "set (map fst (feat_dict r)) = set (map fst (feat_dict (hd tf_list)))"
    using kfd by (simp add: fr tl)
  with nr ty cn show ?thesis by (simp add: tl)
qed

lemma example_cat_row_a_b:
  "cat example_pk [frame_a, frame_b] ''row'' =
     Inr \<lparr>feat_dict = [(numerical, DenseT \<lparr>t_cols = 2, t_rows = [[1, 2], [3, 4], [5, 6]]\<rparr>)],
          col_names_dict = [(numerical, [''a'', ''b''])], tf_y = Some [7, 8, 9]\<rparr>"
  by code_simp

theorem cat_row_result_witness:
  "[frame_a, frame_b] \<noteq> [] \<and> list_all (valid_frame example_pk) [frame_a, frame_b] \<and>
   cat example_pk [frame_a, frame_b] ''row'' =
     Inr \<lparr>feat_dict = [(numerical, DenseT \<lparr>t_cols = 2, t_rows = [[1, 2], [3, 4], [5, 6]]\<rparr>)],
          col_names_dict = [(numerical, [''a'', ''b''])], tf_y = Some [7, 8, 9]\<rparr> \<and>
   num_rows frame_a = 1 \<and> num_rows frame_b = 2 \<and>
   num_rows \<lparr>feat_dict = [(numerical, DenseT \<lparr>t_cols = 2, t_rows = [[1, 2], [3, 4], [5, 6 :: int]]\<rparr>)],
             col_names_dict = [(numerical, [''a'', ''b''])], tf_y = Some [7, 8, 9]\<rparr>
     = sum_list (map num_rows [frame_a, frame_b])"
proof -
  have h1: "[frame_a, frame_b] \<noteq> []" by simp
  have h2: "list_all (valid_frame example_pk) [frame_a, frame_b]" by code_simp
  have na: "num_rows frame_a = 1" by code_simp
  have nb: "num_rows frame_b = 2" by code_simp
  from cat_row_result [OF h1 h2 example_cat_row_a_b]
  have h3: "num_rows \<lparr>feat_dict = [(numerical, DenseT \<lparr>t_cols = 2, t_rows = [[1, 2], [3, 4], [5, 6 :: int]]\<rparr>)],
             col_names_dict = [(numerical, [''a'', ''b''])], tf_y = Some [7, 8, 9]\<rparr>
     = sum_list (map num_rows [frame_a, frame_b])"
    by blast
  from h1 h2 example_cat_row_a_b na nb h3 show ?thesis by blast
qed

end
